theory Spec2Isabelle
  imports Complex_Main
begin

section \<open>The images pipeline of scrapy/contrib/pipeline/images.py\<close>

text \<open>
  A shallow embedding of the module. Python 2 byte strings are \<open>string\<close>; time stamps
  (\<open>time.time()\<close>, \<open>os.path.getmtime\<close>) are Python floats and are read here as real
  numbers; \<open>settings.getint\<close> values are \<open>int\<close>. Exceptions are values of \<open>error\<close>, and a
  function that can raise after it has changed something returns its outcome together with
  the world it leaves behind. Log messages have no influence on any result and are left out.
\<close>

subsection \<open>Libraries\<close>

text \<open>
  The functions of hashlib, urlparse, rfc822, PIL and scrapy.utils that the module calls are
  parameters: \<open>sha1\<close> is the raw digest of \<open>hashlib.sha1\<close>, \<open>md5sum\<close> is
  \<open>scrapy.utils.misc.md5sum\<close> read as a function of the whole content of the file object,
  \<open>urlparse_scheme u\<close> is \<open>urlparse.urlparse(u).scheme\<close>, \<open>rfc822_stamp\<close> is
  \<open>rfc822.mktime_tz(rfc822.parsedate_tz(s))\<close> (\<open>None\<close> where Python raises \<open>TypeError\<close>),
  \<open>fromdomain\<close> is \<open>spiders.fromdomain\<close>. \<open>Image_open\<close> is \<open>Image.open\<close> on a
  \<open>StringIO\<close> of the bytes (\<open>None\<close>: \<open>IOError\<close>); \<open>img_thumbnail im sz\<close> is the copy of
  \<open>im\<close> after \<open>thumbnail(sz, Image.ANTIALIAS)\<close>; \<open>img_save im\<close> is what PIL's JPEG
  encoder writes for \<open>im\<close> (\<open>None\<close>: the encoder raises). \<open>image.save(buf, 'JPEG')\<close> and
  \<open>image.save(path)\<close> with a path ending in \<open>.jpg\<close> run that same encoder with no options.
\<close>

type_synonym bytes = string

record 'img libs =
  sha1 :: "string \<Rightarrow> bytes"
  md5sum :: "bytes \<Rightarrow> string"
  urlparse_scheme :: "string \<Rightarrow> string"
  rfc822_stamp :: "string \<Rightarrow> int option"
  fromdomain :: "string \<Rightarrow> string option"
  Image_open :: "bytes \<Rightarrow> 'img option"
  img_size :: "'img \<Rightarrow> int \<times> int"
  img_mode :: "'img \<Rightarrow> string"
  img_convert :: "'img \<Rightarrow> string \<Rightarrow> 'img"
  img_thumbnail :: "'img \<Rightarrow> int \<times> int \<Rightarrow> 'img"
  img_save :: "'img \<Rightarrow> bytes option"

text \<open>\<open>hexdigest()\<close> of a digest: two lowercase hexadecimal digits for every byte.\<close>

definition hexdigit :: "nat \<Rightarrow> char" where
  "hexdigit n = ''0123456789abcdef'' ! n"

definition hexdigest :: "bytes \<Rightarrow> string" where
  "hexdigest d = concat (map (\<lambda>c. [hexdigit (of_char c div 16), hexdigit (of_char c mod 16)]) d)"

subsection \<open>Key derivation\<close>

definition image_key :: "('img, 'x) libs_scheme \<Rightarrow> string \<Rightarrow> string" where
  "image_key L url =
     (let image_guid = hexdigest (sha1 L url) in ''full/'' @ image_guid @ ''.jpg'')"

definition thumb_key :: "('img, 'x) libs_scheme \<Rightarrow> string \<Rightarrow> string \<Rightarrow> string" where
  "thumb_key L url thumb_id =
     (let image_guid = hexdigest (sha1 L url) in
      ''thumbs/'' @ thumb_id @ ''/'' @ image_guid @ ''.jpg'')"

subsection \<open>Errors, requests, responses\<close>

text \<open>
  Every \<open>ImageException\<close> the module raises carries a formatted message; the messages are
  told apart by their fixed first words: \<open>Http_error\<close> is "Image (http-error)",
  \<open>Empty_content\<close> "Image (empty-content)", \<open>Too_small w h min_w min_h\<close>
  "Image too small", \<open>Cannot_process\<close> "Cannot process image" and \<open>Unknown_error\<close>
  "Image (unknow-error)".
\<close>

datatype image_exception =
    Http_error | Empty_content | Too_small int int int int | Cannot_process | Unknown_error

datatype error =
    NotConfigured | KeyError string | ImageException image_exception
  | IOError | OSError | AssertionError | ValueError | TypeError | AttributeError

record request =
  url :: string
  req_method :: string
  req_body :: "bytes option"
  req_headers :: "(string \<times> string) list"
  priority :: int

record response =
  status :: int
  body :: bytes
  flags :: "string list"
  resp_headers :: "(string \<times> string) list"

text \<open>
  The \<open>info\<close> object the media pipeline hands to every hook: the module reads its
  attributes \<open>info.domain\<close> and \<open>info.spider\<close>. \<open>info_id\<close> is the identity of the object
  (an object without \<open>__eq__\<close> is a dictionary key by identity).
\<close>

datatype info = DomainInfo (info_id: nat) (domain: string) (spider: string)

text \<open>The Python values that reach the parameter \<open>domain\<close> of \<open>_mkdir\<close> and
  \<open>domain_closed\<close>, with Python's truth value of each.\<close>

datatype pyobj = PyNone | PyStr string | PyInfo info

fun truthy :: "pyobj \<Rightarrow> bool" where
  "truthy PyNone = False"
| "truthy (PyStr s) = (s \<noteq> [])"
| "truthy (PyInfo i) = True"

subsection \<open>Python floats\<close>

text \<open>
  \<open>time.time()\<close> and \<open>os.path.getmtime\<close> return C doubles, and Python computes with
  them in IEEE 754 binary64, every operation rounded to the nearest double, ties to even.
  A double is held here as the real number it stands for; \<open>to_double x\<close> is the double
  nearest to the real \<open>x\<close>: with \<open>e\<close> the exponent of its magnitude \<open>a\<close>, it is the
  multiple \<open>k * 2^(e - 52)\<close> with \<open>k\<close> the integer nearest to \<open>a / 2^(e - 52)\<close>. The
  exponent of a double lies between -1022 (also for subnormal numbers) and 1023, which
  bounds the two searches; the result is infinite when the rounded magnitude reaches
  \<open>2^1024\<close>, that is when \<open>e\<close> is 1023 and \<open>k\<close> reaches \<open>2^53 = 9007199254740992\<close>. A
  not-a-number cannot come out of the operations below.
\<close>

datatype pyfloat = Finite real | PosInf | NegInf

definition pow2 :: "int \<Rightarrow> real" where
  "pow2 e = (if 0 \<le> e then 2 ^ nat e else 1 / 2 ^ nat (- e))"

fun expo_up :: "nat \<Rightarrow> real \<Rightarrow> int \<Rightarrow> int" where
  "expo_up 0 a e = e"
| "expo_up (Suc n) a e = (if a < pow2 (e + 1) then e else expo_up n a (e + 1))"

fun expo_down :: "nat \<Rightarrow> real \<Rightarrow> int \<Rightarrow> int" where
  "expo_down 0 a e = e"
| "expo_down (Suc n) a e = (if pow2 e \<le> a then e else expo_down n a (e - 1))"

definition exponent :: "real \<Rightarrow> int" where
  "exponent a = (if 1 \<le> a then expo_up 1023 a 0 else expo_down 1021 a (- 1))"

definition round_half_even :: "real \<Rightarrow> int" where
  "round_half_even r =
     (let f = \<lfloor>r\<rfloor>; d = r - of_int f in
      if d < 1 / 2 then f else if 1 / 2 < d then f + 1 else if even f then f else f + 1)"

definition to_double :: "real \<Rightarrow> pyfloat" where
  "to_double x =
     (if x = 0 then Finite 0
      else
        (let a = \<bar>x\<bar>;
             e = exponent a;
             q = pow2 (e - 52);
             k = round_half_even (a / q)
         in if e = 1023 \<and> 9007199254740992 \<le> k then (if 0 < x then PosInf else NegInf)
            else Finite (if 0 < x then of_int k * q else - (of_int k * q))))"

text \<open>\<open>a - b\<close> of two floats, \<open>x / n\<close> of a float by a positive integer constant, and
  \<open>x > n\<close> of a float and an integer (which Python compares exactly).\<close>

definition float_sub :: "real \<Rightarrow> real \<Rightarrow> pyfloat" where
  "float_sub a b = to_double (a - b)"

definition float_div :: "pyfloat \<Rightarrow> int \<Rightarrow> pyfloat" where
  "float_div x n =
     (case x of Finite a \<Rightarrow> to_double (a / of_int n) | PosInf \<Rightarrow> PosInf | NegInf \<Rightarrow> NegInf)"

definition float_gt :: "pyfloat \<Rightarrow> int \<Rightarrow> bool" where
  "float_gt x n = (case x of Finite a \<Rightarrow> of_int n < a | PosInf \<Rightarrow> True | NegInf \<Rightarrow> False)"

subsection \<open>The world\<close>

text \<open>
  What the module reads and changes outside its arguments: the clock, the file system, the
  \<open>created_directories\<close> dictionary of the file system store, the answers of the download
  engine (\<open>network\<close>; a deferred is read as already fired with that answer), the S3 bucket
  as the engine's uploads leave it, the stats collector, and \<open>trace\<close>, the list of the
  calls made so far to \<open>store.persist_image\<close>, \<open>os.makedirs\<close>, the file write of
  \<open>image.save\<close> and the engine.

  The file system is a POSIX tree without links: a file is known by the list of names that
  leads to it from the root, \<open>nodes\<close> tells what is there, and \<open>cwd\<close> is the working
  directory. A directory holds the time it was made; a regular file its modification time,
  its bytes and whether the process may read it. Permission to write is taken as given.
\<close>

datatype event =
    Persist string
  | Makedirs string
  | Saved string bytes
  | Scheduled request string
  | Downloaded request string

datatype node = Directory real | RegularFile real bytes bool

record world =
  clock :: real
  cwd :: "string list"
  nodes :: "string list \<Rightarrow> node option"
  created_directories :: "pyobj \<Rightarrow> string set option"
  network :: "request \<Rightarrow> error + response"
  s3_bucket :: "string \<Rightarrow> bytes option"
  stats :: "string \<times> string \<Rightarrow> nat"
  trace :: "event list"

text \<open>
  Path resolution. \<open>split_path\<close> cuts a path at its slashes; slashes at the end do not
  count as names. \<open>walk\<close> goes through the names from a directory: empty names and \<open>.\<close>
  stay, \<open>..\<close> goes to the parent (the root is its own parent), and every step needs the
  place it starts from to be a directory. The result is the place the path names, whether
  or not something is there.
\<close>

fun split_path :: "string \<Rightarrow> string list" where
  "split_path [] = [[]]"
| "split_path (c # cs) =
     (if c = CHR ''/'' then [] # split_path cs
      else (case split_path cs of [] \<Rightarrow> [[c]] | x # xs \<Rightarrow> (c # x) # xs))"

definition components :: "string \<Rightarrow> string list" where
  "components p = rev (dropWhile (\<lambda>c. c = []) (rev (split_path p)))"

definition is_dir :: "world \<Rightarrow> string list \<Rightarrow> bool" where
  "is_dir w i = (i = [] \<or> (case nodes w i of Some (Directory t) \<Rightarrow> True | _ \<Rightarrow> False))"

fun walk :: "world \<Rightarrow> string list \<Rightarrow> string list \<Rightarrow> string list option" where
  "walk w cur [] = Some cur"
| "walk w cur (c # cs) =
     (if \<not> is_dir w cur then None
      else if c = [] \<or> c = ''.'' then walk w cur cs
      else if c = ''..'' then walk w (butlast cur) cs
      else walk w (cur @ [c]) cs)"

definition resolve :: "world \<Rightarrow> string \<Rightarrow> string list option" where
  "resolve w p =
     (if p = [] then None
      else walk w (if take 1 p = ''/'' then [] else cwd w) (components p))"

definition node_at :: "world \<Rightarrow> string list \<Rightarrow> node option" where
  "node_at w i = (if i = [] then Some (Directory 0) else nodes w i)"

text \<open>What an existing path names; a path that ends in a slash names directories only.\<close>

definition lookup :: "world \<Rightarrow> string \<Rightarrow> node option" where
  "lookup w p =
     (case resolve w p of
        None \<Rightarrow> None
      | Some i \<Rightarrow>
          (case node_at w i of
             None \<Rightarrow> None
           | Some n \<Rightarrow> if last p = CHR ''/'' \<and> \<not> is_dir w i then None else Some n))"

text \<open>
  What the module sees of the file system: \<open>fs_mtime\<close> is \<open>os.path.getmtime\<close> (\<open>None\<close>:
  it raises), \<open>fs_content\<close> is \<open>open(p, 'rb').read()\<close> (\<open>None\<close>: it raises),
  \<open>path_exists\<close> is \<open>os.path.exists\<close> and \<open>fs_exists\<close> the set of the paths that exist.
  \<open>fs_data\<close> is the bytes of the regular file a path names, readable or not.
\<close>

definition fs_mtime :: "world \<Rightarrow> string \<Rightarrow> real option" where
  "fs_mtime w p =
     (case lookup w p of
        None \<Rightarrow> None
      | Some (Directory t) \<Rightarrow> Some t
      | Some (RegularFile t b r) \<Rightarrow> Some t)"

definition fs_content :: "world \<Rightarrow> string \<Rightarrow> bytes option" where
  "fs_content w p =
     (case lookup w p of
        Some (RegularFile t b r) \<Rightarrow> if r then Some b else None
      | _ \<Rightarrow> None)"

definition fs_data :: "world \<Rightarrow> string \<Rightarrow> bytes option" where
  "fs_data w p = (case lookup w p of Some (RegularFile t b r) \<Rightarrow> Some b | _ \<Rightarrow> None)"

definition path_exists :: "world \<Rightarrow> string \<Rightarrow> bool" where
  "path_exists w p = (lookup w p \<noteq> None)"

definition fs_exists :: "world \<Rightarrow> string set" where
  "fs_exists w = {p. path_exists w p}"

subsection \<open>Relations between worlds\<close>

text \<open>\<open>extends w w'\<close>: the working directory is the same and every directory of \<open>w\<close>
  is a directory of \<open>w'\<close>. \<open>grows w w'\<close>: nothing but the file system changed, and there
  only directories were added.\<close>

definition extends :: "world \<Rightarrow> world \<Rightarrow> bool" where
  "extends w w' = (cwd w' = cwd w \<and> (\<forall>i. is_dir w i \<longrightarrow> is_dir w' i))"

definition grows :: "world \<Rightarrow> world \<Rightarrow> bool" where
  "grows w w' =
     (\<exists>f. w' = w\<lparr>nodes := f\<rparr> \<and>
          (\<forall>i. f i = nodes w i \<or> (nodes w i = None \<and> i \<noteq> [] \<and> (\<exists>t. f i = Some (Directory t)))))"

subsection \<open>os.path, os.mkdir and os.makedirs (posixpath)\<close>

definition os_path_join :: "string \<Rightarrow> string \<Rightarrow> string" where
  "os_path_join a b =
     (if take 1 b = ''/'' then b
      else if a = [] \<or> last a = CHR ''/'' then a @ b
      else a @ ''/'' @ b)"

definition os_path_split :: "string \<Rightarrow> string \<times> string" where
  "os_path_split p =
     (let head = rev (dropWhile (\<lambda>c. c \<noteq> CHR ''/'') (rev p));
          tail = rev (takeWhile (\<lambda>c. c \<noteq> CHR ''/'') (rev p))
      in (if head \<noteq> [] \<and> \<not> list_all (\<lambda>c. c = CHR ''/'') head
          then rev (dropWhile (\<lambda>c. c = CHR ''/'') (rev head))
          else head, tail))"

definition os_path_dirname :: "string \<Rightarrow> string" where
  "os_path_dirname p =
     (let head = rev (dropWhile (\<lambda>c. c \<noteq> CHR ''/'') (rev p)) in
      if head \<noteq> [] \<and> \<not> list_all (\<lambda>c. c = CHR ''/'') head
      then rev (dropWhile (\<lambda>c. c = CHR ''/'') (rev head))
      else head)"

text \<open>\<open>os.mkdir\<close> makes one directory; of its error numbers only \<open>EEXIST\<close> is told
  apart, as \<open>os.makedirs\<close> does.\<close>

datatype errno = EEXIST | ENOENT

definition os_mkdir :: "string \<Rightarrow> world \<Rightarrow> (errno + unit) \<times> world" where
  "os_mkdir p w =
     (case resolve w p of
        None \<Rightarrow> (Inl ENOENT, w)
      | Some i \<Rightarrow>
          (case node_at w i of
             Some n \<Rightarrow> (Inl EEXIST, w)
           | None \<Rightarrow> (Inr (), w\<lparr>nodes := (nodes w)(i \<mapsto> Directory (clock w))\<rparr>)))"

text \<open>
  \<open>os.makedirs\<close>, as os.py has it:
  \<^verbatim>\<open>
    head, tail = path.split(name)
    if not tail:
        head, tail = path.split(head)
    if head and tail and not path.exists(head):
        try:
            makedirs(head, mode)
        except OSError, e:
            if e.errno != EEXIST:
                raise
        if tail == curdir:
            return
    mkdir(name, mode)
  \<close>
\<close>

definition makedirs_parts :: "string \<Rightarrow> string \<times> string" where
  "makedirs_parts name =
     (if snd (os_path_split name) = [] then os_path_split (fst (os_path_split name))
      else os_path_split name)"

function makedirs_rec :: "string \<Rightarrow> world \<Rightarrow> (errno + unit) \<times> world" where
  "makedirs_rec name w =
     (if fst (makedirs_parts name) \<noteq> [] \<and> snd (makedirs_parts name) \<noteq> [] \<and>
         \<not> path_exists w (fst (makedirs_parts name))
      then (case makedirs_rec (fst (makedirs_parts name)) w of
              (Inl e, w1) \<Rightarrow>
                if e \<noteq> EEXIST then (Inl e, w1)
                else if snd (makedirs_parts name) = ''.'' then (Inr (), w1)
                else os_mkdir name w1
            | (Inr u, w1) \<Rightarrow>
                if snd (makedirs_parts name) = ''.'' then (Inr (), w1)
                else os_mkdir name w1)
      else os_mkdir name w)"
  by pat_completeness auto

termination
proof (relation "measure (\<lambda>(name, w). length name)")
  show "wf (measure (\<lambda>(name, w). length name))" by simp
next
  fix name :: string and w :: world
  assume a: "fst (makedirs_parts name) \<noteq> [] \<and> snd (makedirs_parts name) \<noteq> [] \<and>
             \<not> path_exists w (fst (makedirs_parts name))"
  have sp: "length (fst (os_path_split p)) + length (snd (os_path_split p)) \<le> length p"
    for p
  proof -
    let ?h = "rev (dropWhile (\<lambda>c. c \<noteq> CHR ''/'') (rev p))"
    let ?t = "rev (takeWhile (\<lambda>c. c \<noteq> CHR ''/'') (rev p))"
    have "length ?h + length ?t = length (rev p)"
      by (metis add.commute length_append length_rev takeWhile_dropWhile_id)
    moreover have "length (rev (dropWhile (\<lambda>c. c = CHR ''/'') (rev ?h))) \<le> length ?h"
      by (metis length_dropWhile_le length_rev)
    ultimately show ?thesis
      by (simp add: os_path_split_def Let_def)
  qed
  have "length (fst (makedirs_parts name)) + length (snd (makedirs_parts name)) \<le> length name"
  proof (cases "snd (os_path_split name) = []")
    case True
    with sp [of "fst (os_path_split name)"] sp [of name] show ?thesis
      by (simp add: makedirs_parts_def)
  next
    case False
    with sp [of name] show ?thesis by (simp add: makedirs_parts_def)
  qed
  with a show "((fst (makedirs_parts name), w), (name, w)) \<in> measure (\<lambda>(name, w). length name)"
    by (cases "snd (makedirs_parts name)") auto
qed

declare makedirs_rec.simps [simp del]

text \<open>The call of \<open>os.makedirs\<close> as the store makes it; any failure is an \<open>OSError\<close>.\<close>

definition makedirs :: "string \<Rightarrow> world \<Rightarrow> (error + unit) \<times> world" where
  "makedirs d w =
     (case makedirs_rec d (w\<lparr>trace := trace w @ [Makedirs d]\<rparr>) of
        (Inl e, w1) \<Rightarrow> (Inl OSError, w1)
      | (Inr u, w1) \<Rightarrow> (Inr (), w1))"

subsection \<open>FSImagesStore\<close>

text \<open>
  \<open>mkdir\<close> is the method \<open>_mkdir\<close>. \<open>self.created_directories\<close> is a
  \<open>defaultdict(set)\<close>: reading a missing key stores an empty set under it, and
  \<open>seen.add\<close> changes the set held by the dictionary. When \<open>domain\<close> is false, \<open>seen\<close>
  is a fresh set that is thrown away.
\<close>

definition mkdir :: "string \<Rightarrow> pyobj \<Rightarrow> world \<Rightarrow> (error + unit) \<times> world" where
  "mkdir dirname dmn w =
     (let seen = (if truthy dmn
                  then (case created_directories w dmn of None \<Rightarrow> {} | Some s \<Rightarrow> s)
                  else {});
          w1 = (if truthy dmn
                then w\<lparr>created_directories := (created_directories w)(dmn \<mapsto> seen)\<rparr>
                else w)
      in if dirname \<notin> seen
         then (case (if \<not> path_exists w1 dirname then makedirs dirname w1 else (Inr (), w1)) of
                 (Inl e, w2) \<Rightarrow> (Inl e, w2)
               | (Inr u, w2) \<Rightarrow>
                   (Inr (),
                    if truthy dmn
                    then w2\<lparr>created_directories :=
                              (created_directories w2)(dmn \<mapsto> insert dirname seen)\<rparr>
                    else w2))
         else (Inr (), w1))"

definition domain_closed :: "pyobj \<Rightarrow> world \<Rightarrow> world" where
  "domain_closed dmn w = w\<lparr>created_directories := (created_directories w)(dmn := None)\<rparr>"

definition get_filesystem_path :: "string \<Rightarrow> string \<Rightarrow> string" where
  "get_filesystem_path basedir key = os_path_join basedir key"

text \<open>
  \<open>image.save(absolute_path)\<close>: the file is opened for writing, which needs the path to
  lead through directories to a place that is not a directory, and the encoder writes into
  it; when the encoder raises, the file stays behind empty. A file that was there keeps
  its permissions, a new one can be read.
\<close>

definition image_save ::
  "('img, 'x) libs_scheme \<Rightarrow> 'img \<Rightarrow> string \<Rightarrow> world \<Rightarrow> (error + unit) \<times> world" where
  "image_save L im path w =
     (case resolve w path of
        None \<Rightarrow> (Inl IOError, w)
      | Some i \<Rightarrow>
          if last path = CHR ''/'' \<or> is_dir w i then (Inl IOError, w)
          else
            (let r = (case nodes w i of Some (RegularFile t b r) \<Rightarrow> r | _ \<Rightarrow> True) in
             case img_save L im of
               None \<Rightarrow>
                 (Inl IOError,
                  w\<lparr>nodes := (nodes w)(i \<mapsto> RegularFile (clock w) [] r),
                     trace := trace w @ [Saved path []]\<rparr>)
             | Some b \<Rightarrow>
                 (Inr (),
                  w\<lparr>nodes := (nodes w)(i \<mapsto> RegularFile (clock w) b r),
                     trace := trace w @ [Saved path b]\<rparr>)))"

definition fs_persist_image ::
  "('img, 'x) libs_scheme \<Rightarrow> string \<Rightarrow> string \<Rightarrow> 'img \<Rightarrow> bytes \<Rightarrow> info \<Rightarrow> world
     \<Rightarrow> (error + unit) \<times> world" where
  "fs_persist_image L basedir key im buf info w =
     (let absolute_path = get_filesystem_path basedir key in
      case mkdir (os_path_dirname absolute_path) (PyInfo info)
             (w\<lparr>trace := trace w @ [Persist key]\<rparr>) of
        (Inl e, w1) \<Rightarrow> (Inl e, w1)
      | (Inr u, w1) \<Rightarrow> image_save L im absolute_path w1)"

text \<open>The dictionary \<open>stat_image\<close> returns: \<open>{}\<close> is \<open>empty_stat\<close>.\<close>

record image_stat =
  last_modified :: "real option"
  checksum :: "string option"

definition empty_stat :: image_stat where
  "empty_stat = \<lparr>last_modified = None, checksum = None\<rparr>"

definition fs_stat_image ::
  "('img, 'x) libs_scheme \<Rightarrow> string \<Rightarrow> string \<Rightarrow> info \<Rightarrow> world \<Rightarrow> error + image_stat" where
  "fs_stat_image L basedir key info w =
     (let absolute_path = get_filesystem_path basedir key in
      case fs_mtime w absolute_path of
        None \<Rightarrow> Inr empty_stat
      | Some t \<Rightarrow>
          (case fs_content w absolute_path of
             None \<Rightarrow> Inl IOError
           | Some imagefile \<Rightarrow>
               Inr \<lparr>last_modified = Some t, checksum = Some (md5sum L imagefile)\<rparr>))"

text \<open>
  \<open>FSImagesStore.__init__\<close>: \<open>split_after sep s\<close> is \<open>s.split(sep, 1)[1]\<close> when
  \<open>sep in s\<close>. The base directory is made before the dictionary exists, with
  \<open>domain=None\<close>.
\<close>

fun split_after :: "string \<Rightarrow> string \<Rightarrow> string option" where
  "split_after sep [] = (if sep = [] then Some [] else None)"
| "split_after sep (c # cs) =
     (if take (length sep) (c # cs) = sep then Some (drop (length sep) (c # cs))
      else split_after sep cs)"

datatype store =
    FSImagesStore (basedir: string)
  | S3ImagesStore (bucket: string) (s3_prefix: string) (s3_spider: "string option")

definition FSImagesStore_init :: "string \<Rightarrow> world \<Rightarrow> (error + store) \<times> world" where
  "FSImagesStore_init uri w =
     (let basedir = (case split_after ''://'' uri of None \<Rightarrow> uri | Some r \<Rightarrow> r) in
      case mkdir basedir PyNone w of
        (Inl e, w1) \<Rightarrow> (Inl e, w1)
      | (Inr u, w1) \<Rightarrow>
          (Inr (FSImagesStore basedir), w1\<lparr>created_directories := (\<lambda>k. None)\<rparr>))"

subsection \<open>S3ImagesStore\<close>

record settings =
  IMAGES_STORE :: "string option"
  IMAGES_MIN_WIDTH :: "int option"
  IMAGES_MIN_HEIGHT :: "int option"
  IMAGES_EXPIRES :: "int option"
  IMAGES_THUMBS :: "(string \<times> int \<times> int) list"
  IMAGES_S3STORE_SPIDER :: "string option"

definition getint :: "int option \<Rightarrow> int \<Rightarrow> int" where
  "getint v dflt = (case v of None \<Rightarrow> dflt | Some n \<Rightarrow> n)"

definition set_custom_spider :: "('img, 'x) libs_scheme \<Rightarrow> settings \<Rightarrow> string option" where
  "set_custom_spider L S =
     (case IMAGES_S3STORE_SPIDER S of
        None \<Rightarrow> None
      | Some dmn \<Rightarrow> if dmn \<noteq> [] then fromdomain L dmn else None)"

definition S3ImagesStore_init ::
  "('img, 'x) libs_scheme \<Rightarrow> settings \<Rightarrow> string \<Rightarrow> world \<Rightarrow> (error + store) \<times> world" where
  "S3ImagesStore_init L S uri w =
     (if take 5 uri \<noteq> ''s3://'' then (Inl AssertionError, w)
      else let rest = drop 5 uri in
        if CHR ''/'' \<notin> set rest then (Inl ValueError, w)
        else (Inr (S3ImagesStore (takeWhile (\<lambda>c. c \<noteq> CHR ''/'') rest)
                     (tl (dropWhile (\<lambda>c. c \<noteq> CHR ''/'') rest))
                     (set_custom_spider L S)), w))"

text \<open>\<open>str\<close> of an integer, for the size headers of an upload.\<close>

fun str_nat :: "nat \<Rightarrow> string" where
  "str_nat n =
     (if n < 10 then [''0123456789'' ! n]
      else str_nat (n div 10) @ [''0123456789'' ! (n mod 10)])"

definition str_int :: "int \<Rightarrow> string" where
  "str_int i = (if i < 0 then ''-'' @ str_nat (nat (- i)) else str_nat (nat i))"

definition build_request ::
  "string \<Rightarrow> string \<Rightarrow> string \<Rightarrow> string \<Rightarrow> bytes option \<Rightarrow> (string \<times> string) list
     \<Rightarrow> request" where
  "build_request bkt pfx key meth bdy hdrs =
     \<lparr>url = ''http://'' @ bkt @ ''.s3.amazonaws.com/'' @ pfx @ key,
      req_method = meth, req_body = bdy, req_headers = hdrs, priority = 1000\<rparr>"

text \<open>What a request leaves in the bucket: a \<open>PUT\<close> that is answered with status 200
  stores its body under its URL.\<close>

definition s3_effect :: "request \<Rightarrow> world \<Rightarrow> world" where
  "s3_effect req w =
     (case network w req of
        Inl e \<Rightarrow> w
      | Inr resp \<Rightarrow>
          if req_method req = ''PUT'' \<and> status resp = 200
          then w\<lparr>s3_bucket :=
                   (s3_bucket w)(url req \<mapsto> (case req_body req of None \<Rightarrow> [] | Some b \<Rightarrow> b))\<rparr>
          else w)"

definition download_request ::
  "string option \<Rightarrow> request \<Rightarrow> info \<Rightarrow> world \<Rightarrow> (error + response) \<times> world" where
  "download_request custom req info w =
     (case custom of
        Some sp \<Rightarrow>
          (network w req, (s3_effect req w)\<lparr>trace := trace w @ [Scheduled req sp]\<rparr>)
      | None \<Rightarrow>
          (network w req,
           (s3_effect req w)\<lparr>trace := trace w @ [Downloaded req (spider info)]\<rparr>))"

definition strip_quotes :: "string \<Rightarrow> string" where
  "strip_quotes s =
     rev (dropWhile (\<lambda>c. c = CHR 0x22) (rev (dropWhile (\<lambda>c. c = CHR 0x22) s)))"

definition s3_onsuccess ::
  "('img, 'x) libs_scheme \<Rightarrow> response \<Rightarrow> error + image_stat option" where
  "s3_onsuccess L resp =
     (if status resp = 200
      then (case map_of (resp_headers resp) ''Etag'' of
              None \<Rightarrow> Inl (KeyError ''Etag'')
            | Some etag \<Rightarrow>
                (case map_of (resp_headers resp) ''Last-Modified'' of
                   None \<Rightarrow> Inl (KeyError ''Last-Modified'')
                 | Some lm \<Rightarrow>
                     (case rfc822_stamp L lm of
                        None \<Rightarrow> Inl TypeError
                      | Some modified_stamp \<Rightarrow>
                          Inr (Some \<lparr>last_modified = Some (real_of_int modified_stamp),
                                     checksum = Some (strip_quotes etag)\<rparr>))))
      else Inr None)"

definition s3_stat_image ::
  "('img, 'x) libs_scheme \<Rightarrow> store \<Rightarrow> string \<Rightarrow> info \<Rightarrow> world
     \<Rightarrow> (error + image_stat option) \<times> world" where
  "s3_stat_image L st key info w =
     (let req = build_request (bucket st) (s3_prefix st) key ''HEAD'' None [] in
      case download_request (s3_spider st) req info w of
        (Inl e, w1) \<Rightarrow> (Inl e, w1)
      | (Inr resp, w1) \<Rightarrow> (s3_onsuccess L resp, w1))"

text \<open>The upload answers through a deferred that \<open>image_downloaded\<close> drops: nothing is
  raised to the caller.\<close>

definition s3_persist_image ::
  "('img, 'x) libs_scheme \<Rightarrow> store \<Rightarrow> string \<Rightarrow> 'img \<Rightarrow> bytes \<Rightarrow> info \<Rightarrow> world
     \<Rightarrow> (error + unit) \<times> world" where
  "s3_persist_image L st key im buf info w =
     (case img_size L im of
        (width, height) \<Rightarrow>
          (let hdrs = [(''Content-Type'', ''image/jpeg''),
                       (''X-Amz-Acl'', ''public-read''),
                       (''X-Amz-Meta-Width'', str_int width),
                       (''X-Amz-Meta-Height'', str_int height),
                       (''Cache-Control'', ''max-age=172800'')];
               req = build_request (bucket st) (s3_prefix st) key ''PUT'' (Some buf) hdrs
           in (Inr (), snd (download_request (s3_spider st) req info
                              (w\<lparr>trace := trace w @ [Persist key]\<rparr>)))))"

subsection \<open>The two stores behind one interface\<close>

definition persist_image ::
  "('img, 'x) libs_scheme \<Rightarrow> store \<Rightarrow> string \<Rightarrow> 'img \<Rightarrow> bytes \<Rightarrow> info \<Rightarrow> world
     \<Rightarrow> (error + unit) \<times> world" where
  "persist_image L st key im buf info w =
     (case st of
        FSImagesStore d \<Rightarrow> fs_persist_image L d key im buf info w
      | S3ImagesStore b p sp \<Rightarrow> s3_persist_image L st key im buf info w)"

definition stat_image ::
  "('img, 'x) libs_scheme \<Rightarrow> store \<Rightarrow> string \<Rightarrow> info \<Rightarrow> world
     \<Rightarrow> (error + image_stat option) \<times> world" where
  "stat_image L st key info w =
     (case st of
        FSImagesStore d \<Rightarrow>
          (case fs_stat_image L d key info w of
             Inl e \<Rightarrow> (Inl e, w)
           | Inr r \<Rightarrow> (Inr (Some r), w))
      | S3ImagesStore b p sp \<Rightarrow> s3_stat_image L st key info w)"

subsection \<open>ImagesPipeline\<close>

text \<open>The class attributes read from the settings when the class is defined, and the
  store chosen by \<open>__init__\<close>.\<close>

record pipeline =
  MIN_WIDTH :: int
  MIN_HEIGHT :: int
  EXPIRES :: int
  THUMBS :: "(string \<times> int \<times> int) list"
  store :: store

datatype store_class = FSImagesStore_class | S3ImagesStore_class

definition STORE_SCHEMES :: "(string \<times> store_class) list" where
  "STORE_SCHEMES =
     [([], FSImagesStore_class), (''file'', FSImagesStore_class), (''s3'', S3ImagesStore_class)]"

definition get_store ::
  "('img, 'x) libs_scheme \<Rightarrow> settings \<Rightarrow> string \<Rightarrow> world \<Rightarrow> (error + store) \<times> world" where
  "get_store L S uri w =
     (let scheme = urlparse_scheme L uri in
      case map_of STORE_SCHEMES scheme of
        None \<Rightarrow> (Inl (KeyError scheme), w)
      | Some FSImagesStore_class \<Rightarrow> FSImagesStore_init uri w
      | Some S3ImagesStore_class \<Rightarrow> S3ImagesStore_init L S uri w)"

definition ImagesPipeline_init ::
  "('img, 'x) libs_scheme \<Rightarrow> settings \<Rightarrow> world \<Rightarrow> (error + pipeline) \<times> world" where
  "ImagesPipeline_init L S w =
     (case IMAGES_STORE S of
        None \<Rightarrow> (Inl NotConfigured, w)
      | Some store_uri \<Rightarrow>
          if store_uri = [] then (Inl NotConfigured, w)
          else (case get_store L S store_uri w of
                  (Inl e, w1) \<Rightarrow> (Inl e, w1)
                | (Inr st, w1) \<Rightarrow>
                    (Inr \<lparr>MIN_WIDTH = getint (IMAGES_MIN_WIDTH S) 0,
                          MIN_HEIGHT = getint (IMAGES_MIN_HEIGHT S) 0,
                          EXPIRES = getint (IMAGES_EXPIRES S) 90,
                          THUMBS = IMAGES_THUMBS S,
                          store = st\<rparr>, w1)))"

definition inc_value :: "string \<Rightarrow> string \<Rightarrow> world \<Rightarrow> world" where
  "inc_value name dmn w = w\<lparr>stats := (stats w)((name, dmn) := Suc (stats w (name, dmn)))\<rparr>"

definition inc_stats :: "string \<Rightarrow> string \<Rightarrow> world \<Rightarrow> world" where
  "inc_stats dmn st w =
     inc_value (''image_status_count/'' @ st) dmn (inc_value ''image_count'' dmn w)"

definition convert_image ::
  "('img, 'x) libs_scheme \<Rightarrow> 'img \<Rightarrow> (int \<times> int) option \<Rightarrow> error + 'img \<times> bytes" where
  "convert_image L im sz =
     (let im1 = (if img_mode L im \<noteq> ''RGB'' then img_convert L im ''RGB'' else im);
          im2 = (case sz of None \<Rightarrow> im1 | Some s \<Rightarrow> img_thumbnail L im1 s)
      in case img_save L im2 of
           None \<Rightarrow> Inl (ImageException Cannot_process)
         | Some buf \<Rightarrow> Inr (im2, buf))"

text \<open>
  \<open>get_images\<close> is a generator. Its items are computed without touching the world, so it
  is the list of what it yields in order, \<open>Inr (key, image, buf)\<close>, ended by \<open>Inl e\<close>
  where its body raises \<open>e\<close>; the loop that consumes it never looks behind an \<open>Inl\<close>.
\<close>

definition get_images ::
  "('img, 'x) libs_scheme \<Rightarrow> pipeline \<Rightarrow> response \<Rightarrow> request
     \<Rightarrow> (error + string \<times> 'img \<times> bytes) list" where
  "get_images L P resp req =
     (let key = image_key L (url req) in
      case Image_open L (body resp) of
        None \<Rightarrow> [Inl IOError]
      | Some orig_image \<Rightarrow>
          (case img_size L orig_image of
             (width, height) \<Rightarrow>
               if width < MIN_WIDTH P \<or> height < MIN_HEIGHT P
               then [Inl (ImageException (Too_small width height (MIN_WIDTH P) (MIN_HEIGHT P)))]
               else (case convert_image L orig_image None of
                       Inl e \<Rightarrow> [Inl e]
                     | Inr (im, buf) \<Rightarrow>
                         Inr (key, im, buf) #
                         map (\<lambda>(thumb_id, sz).
                                case convert_image L im (Some sz) of
                                  Inl e \<Rightarrow> Inl e
                                | Inr (thumb_image, thumb_buf) \<Rightarrow>
                                    Inr (thumb_key L (url req) thumb_id, thumb_image, thumb_buf))
                             (THUMBS P))))"

text \<open>The \<open>for\<close> loop of \<open>image_downloaded\<close>, with \<open>first_buf\<close> as it stands.\<close>

fun persist_loop ::
  "('img, 'x) libs_scheme \<Rightarrow> store \<Rightarrow> info \<Rightarrow> (error + string \<times> 'img \<times> bytes) list
     \<Rightarrow> bytes option \<Rightarrow> world \<Rightarrow> (error + bytes option) \<times> world" where
  "persist_loop L st info [] first_buf w = (Inr first_buf, w)"
| "persist_loop L st info (Inl e # items) first_buf w = (Inl e, w)"
| "persist_loop L st info (Inr (key, im, buf) # items) first_buf w =
     (case persist_image L st key im buf info w of
        (Inl e, w1) \<Rightarrow> (Inl e, w1)
      | (Inr u, w1) \<Rightarrow>
          persist_loop L st info items
            (if first_buf = None then Some buf else first_buf) w1)"

definition image_downloaded ::
  "('img, 'x) libs_scheme \<Rightarrow> pipeline \<Rightarrow> response \<Rightarrow> request \<Rightarrow> info \<Rightarrow> world
     \<Rightarrow> (error + string) \<times> world" where
  "image_downloaded L P resp req info w =
     (case persist_loop L (store P) info (get_images L P resp req) None w of
        (Inl e, w1) \<Rightarrow> (Inl e, w1)
      | (Inr None, w1) \<Rightarrow> (Inl AttributeError, w1)
      | (Inr (Some first_buf), w1) \<Rightarrow> (Inr (md5sum L first_buf), w1))"

text \<open>The dictionary \<open>{'url': ..., 'path': ..., 'checksum': ...}\<close> both hooks return.\<close>

record result =
  r_url :: string
  r_path :: string
  r_checksum :: "string option"

definition media_downloaded ::
  "('img, 'x) libs_scheme \<Rightarrow> pipeline \<Rightarrow> response \<Rightarrow> request \<Rightarrow> info \<Rightarrow> world
     \<Rightarrow> (error + result) \<times> world" where
  "media_downloaded L P resp req info w =
     (if status resp \<noteq> 200 then (Inl (ImageException Http_error), w)
      else if body resp = [] then (Inl (ImageException Empty_content), w)
      else
        (let st = (if ''cached'' \<in> set (flags resp) then ''cached'' else ''downloaded'');
             w1 = inc_stats (domain info) st w;
             key = image_key L (url req)
         in case image_downloaded L P resp req info w1 of
              (Inl ex, w2) \<Rightarrow> (Inl ex, w2)
            | (Inr c, w2) \<Rightarrow>
                (Inr \<lparr>r_url = url req, r_path = key, r_checksum = Some c\<rparr>, w2)))"

definition media_failed :: "error \<Rightarrow> request \<Rightarrow> info \<Rightarrow> world \<Rightarrow> (error + result) \<times> world" where
  "media_failed failure req info w = (Inl (ImageException Unknown_error), w)"

text \<open>
  Twisted's deferred, as far as \<open>media_to_download\<close> uses it: \<open>addCallbacks\<close> runs the
  callback on a result and the errback on a failure, \<open>addErrback\<close> passes a result on. An
  errback that returns \<open>None\<close> (as \<open>log.err\<close> does) turns the failure into the result
  \<open>None\<close>.
\<close>

definition addCallbacks ::
  "('a \<Rightarrow> world \<Rightarrow> (error + 'b) \<times> world) \<Rightarrow> (error \<Rightarrow> world \<Rightarrow> (error + 'b) \<times> world)
     \<Rightarrow> (error + 'a) \<times> world \<Rightarrow> (error + 'b) \<times> world" where
  "addCallbacks callback errback dfd =
     (case dfd of (Inl e, w) \<Rightarrow> errback e w | (Inr x, w) \<Rightarrow> callback x w)"

definition addErrback ::
  "(error \<Rightarrow> world \<Rightarrow> (error + 'b) \<times> world) \<Rightarrow> (error + 'b) \<times> world
     \<Rightarrow> (error + 'b) \<times> world" where
  "addErrback errback dfd =
     (case dfd of (Inl e, w) \<Rightarrow> errback e w | (Inr x, w) \<Rightarrow> (Inr x, w))"

text \<open>The callback \<open>_onsuccess\<close> of \<open>media_to_download\<close>; \<open>None\<close> forces the download.\<close>

definition onsuccess ::
  "pipeline \<Rightarrow> request \<Rightarrow> info \<Rightarrow> string \<Rightarrow> image_stat option \<Rightarrow> world
     \<Rightarrow> (error + result option) \<times> world" where
  "onsuccess P req info key res w =
     (case res of
        None \<Rightarrow> (Inr None, w)
      | Some r \<Rightarrow>
          if r = empty_stat then (Inr None, w)
          else (case last_modified r of
                  None \<Rightarrow> (Inr None, w)
                | Some lm \<Rightarrow>
                    if lm = 0 then (Inr None, w)
                    else
                      (let age_seconds = float_sub (clock w) lm;
                           age_days = float_div (float_div (float_div age_seconds 60) 60) 24
                       in if float_gt age_days (EXPIRES P) then (Inr None, w)
                          else (Inr (Some \<lparr>r_url = url req, r_path = key,
                                           r_checksum = checksum r\<rparr>),
                                inc_stats (domain info) ''uptodate'' w))))"

definition media_to_download ::
  "('img, 'x) libs_scheme \<Rightarrow> pipeline \<Rightarrow> request \<Rightarrow> info \<Rightarrow> world
     \<Rightarrow> (error + result option) \<times> world" where
  "media_to_download L P req info w =
     (let key = image_key L (url req);
          dfd = stat_image L (store P) key info w
      in addErrback (\<lambda>e w'. (Inr None, w'))
           (addCallbacks (onsuccess P req info key) (\<lambda>e w'. (Inr None, w')) dfd))"

subsection \<open>A small instance\<close>

text \<open>
  Stand-ins for the libraries, small enough to run the definitions on: an image is its
  width, height and mode, read from the first two bytes of the data (any further byte
  makes it a palette image), and the digest of a URL is its first two bytes.
\<close>

definition demo_libs :: "(int \<times> int \<times> string) libs" where
  "demo_libs =
     \<lparr>sha1 = (\<lambda>u. take 2 u),
      md5sum = (\<lambda>b. hexdigest (take 2 b)),
      urlparse_scheme =
        (\<lambda>u. case split_after ''://'' u of None \<Rightarrow> [] | Some r \<Rightarrow> takeWhile (\<lambda>c. c \<noteq> CHR '':'') u),
      rfc822_stamp = (\<lambda>s. if s = ''Thu, 01 Jan 1970 00:01:40 GMT'' then Some 100 else None),
      fromdomain = Some,
      Image_open =
        (\<lambda>b. case b of
                x # y # m \<Rightarrow> Some (of_char x, of_char y, if m = [] then ''RGB'' else ''P'')
              | _ \<Rightarrow> None),
      img_size = (\<lambda>(x, y, m). (x, y)),
      img_mode = (\<lambda>(x, y, m). m),
      img_convert = (\<lambda>(x, y, m) mode. (x, y, mode)),
      img_thumbnail = (\<lambda>(x, y, m) (tx, ty). (min x tx, min y ty, m)),
      img_save =
        (\<lambda>(x, y, m). if m = ''RGB'' then Some (if x \<le> 50 then ''small'' else ''JPEGL'')
                     else None)\<rparr>"

definition demo_world :: world where
  "demo_world =
     \<lparr>clock = 1000, cwd = [],
      nodes = (\<lambda>i. if i = [''data''] then Some (Directory 0) else None),
      created_directories = (\<lambda>k. None), network = (\<lambda>r. Inl IOError),
      s3_bucket = (\<lambda>u. None), stats = (\<lambda>k. 0), trace = []\<rparr>"

definition demo_pipeline :: pipeline where
  "demo_pipeline =
     \<lparr>MIN_WIDTH = 100, MIN_HEIGHT = 100, EXPIRES = 90,
      THUMBS = [(''small'', (50, 50))], store = FSImagesStore ''/data''\<rparr>"

definition demo_request :: request where
  "demo_request =
     \<lparr>url = ''http://example.com/a.jpg'', req_method = ''GET'', req_body = None,
      req_headers = [], priority = 0\<rparr>"

definition demo_info :: info where
  "demo_info = DomainInfo 1 ''example.com'' ''example.com''"

definition demo_response :: "int \<Rightarrow> bytes \<Rightarrow> response" where
  "demo_response st b = \<lparr>status = st, body = b, flags = [], resp_headers = []\<rparr>"

definition demo_settings :: "string \<Rightarrow> settings" where
  "demo_settings uri =
     \<lparr>IMAGES_STORE = Some uri, IMAGES_MIN_WIDTH = None, IMAGES_MIN_HEIGHT = None,
      IMAGES_EXPIRES = None, IMAGES_THUMBS = [], IMAGES_S3STORE_SPIDER = None\<rparr>"

text \<open>The world after the image of \<open>demo_request\<close> was stored at time \<open>t\<close>, and the
  same with a file that the process may not read.\<close>

definition demo_stored :: "real \<Rightarrow> world" where
  "demo_stored t =
     demo_world\<lparr>nodes := (nodes demo_world)
                ([''data'', ''full''] \<mapsto> Directory 0,
                 [''data'', ''full'', ''6874.jpg''] \<mapsto> RegularFile t ''JPEGL'' True)\<rparr>"

definition demo_unreadable :: "real \<Rightarrow> world" where
  "demo_unreadable t =
     demo_world\<lparr>nodes := (nodes demo_world)
                ([''data'', ''full''] \<mapsto> Directory 0,
                 [''data'', ''full'', ''6874.jpg''] \<mapsto> RegularFile t ''JPEGL'' False)\<rparr>"

text \<open>The requests a call of \<open>stat_image\<close> hands to the engine: none for the file
  system store, one \<open>HEAD\<close> request for the S3 store.\<close>

definition stat_requests :: "store \<Rightarrow> string \<Rightarrow> info \<Rightarrow> event list" where
  "stat_requests st key info =
     (case st of
        FSImagesStore d \<Rightarrow> []
      | S3ImagesStore b p sp \<Rightarrow>
          (let req = build_request b p key ''HEAD'' None [] in
           [case sp of Some s \<Rightarrow> Scheduled req s | None \<Rightarrow> Downloaded req (spider info)]))"

section \<open>Properties\<close>

subsection \<open>The file system\<close>

lemma split_path_nonempty: "split_path p \<noteq> []"
  by (induction p) (auto split: list.splits)

lemma split_path_slash: "split_path (a @ CHR ''/'' # b) = split_path a @ split_path b"
proof (induction a)
  case Nil
  show ?case by simp
next
  case (Cons c a)
  then show ?case
    using split_path_nonempty [of a] by (auto split: list.splits)
qed

lemma split_path_plain: "CHR ''/'' \<notin> set s \<Longrightarrow> split_path s = [s]"
  by (induction s) auto

lemma walk_cong: "is_dir w' = is_dir w \<Longrightarrow> walk w' cur cs = walk w cur cs"
  by (induction cs arbitrary: cur) simp_all

lemma walk_append:
  "walk w cur (xs @ ys) = (case walk w cur xs of None \<Rightarrow> None | Some m \<Rightarrow> walk w m ys)"
  by (induction xs arbitrary: cur) simp_all

lemma walk_mono:
  "extends w w' \<Longrightarrow> walk w cur cs = Some i \<Longrightarrow> walk w' cur cs = Some i"
proof (induction cs arbitrary: cur)
  case Nil
  then show ?case by simp
next
  case (Cons c cs)
  from Cons.prems(2) have d: "is_dir w cur" by (simp split: if_splits)
  with Cons.prems(1) have d': "is_dir w' cur" by (simp add: extends_def)
  show ?case
  proof (cases "c = [] \<or> c = ''.''")
    case True
    with Cons.prems(2) d have "walk w cur cs = Some i" by auto
    from Cons.IH [OF Cons.prems(1) this] True d' show ?thesis by auto
  next
    case False
    show ?thesis
    proof (cases "c = ''..''")
      case True
      with Cons.prems(2) d False have "walk w (butlast cur) cs = Some i" by simp
      from Cons.IH [OF Cons.prems(1) this] True False d' show ?thesis by simp
    next
      case nd: False
      with Cons.prems(2) d False have "walk w (cur @ [c]) cs = Some i" by simp
      from Cons.IH [OF Cons.prems(1) this] nd False d' show ?thesis by simp
    qed
  qed
qed

lemma extends_refl: "extends w w"
  by (simp add: extends_def)

lemma extends_trans: "extends w w' \<Longrightarrow> extends w' w'' \<Longrightarrow> extends w w''"
  by (simp add: extends_def)

lemma same_tree:
  assumes "nodes w' = nodes w" and "cwd w' = cwd w"
  shows "resolve w' = resolve w" and "lookup w' = lookup w" and "fs_mtime w' = fs_mtime w"
    and "fs_content w' = fs_content w" and "fs_data w' = fs_data w"
    and "path_exists w' = path_exists w" and "fs_exists w' = fs_exists w"
    and "extends w w'"
proof -
  have d: "is_dir w' = is_dir w"
    using assms(1) by (simp add: is_dir_def fun_eq_iff)
  show r: "resolve w' = resolve w"
    using assms(2) by (simp add: resolve_def fun_eq_iff walk_cong [OF d])
  have n: "node_at w' = node_at w"
    using assms(1) by (simp add: node_at_def fun_eq_iff)
  show l: "lookup w' = lookup w"
  proof (rule ext)
    fix p
    show "lookup w' p = lookup w p"
      unfolding lookup_def r n d by (rule refl)
  qed
  show "fs_mtime w' = fs_mtime w" by (simp add: fs_mtime_def fun_eq_iff l)
  show "fs_content w' = fs_content w" by (simp add: fs_content_def fun_eq_iff l)
  show "fs_data w' = fs_data w" by (simp add: fs_data_def fun_eq_iff l)
  show p: "path_exists w' = path_exists w" by (simp add: path_exists_def fun_eq_iff l)
  show "fs_exists w' = fs_exists w" by (simp add: fs_exists_def p)
  show "extends w w'" using assms(2) by (simp add: extends_def d)
qed

lemma grows_refl: "grows w w"
  unfolding grows_def by (rule exI [of _ "nodes w"]) simp

lemma grows_trans:
  assumes "grows w w'" and "grows w' w''"
  shows "grows w w''"
proof -
  from assms(1) obtain f where f: "w' = w\<lparr>nodes := f\<rparr>"
    and ff: "\<forall>i. f i = nodes w i \<or> (nodes w i = None \<and> i \<noteq> [] \<and> (\<exists>t. f i = Some (Directory t)))"
    unfolding grows_def by blast
  from assms(2) obtain g where g: "w'' = w'\<lparr>nodes := g\<rparr>"
    and gg: "\<forall>i. g i = nodes w' i \<or> (nodes w' i = None \<and> i \<noteq> [] \<and> (\<exists>t. g i = Some (Directory t)))"
    unfolding grows_def by blast
  have nf: "nodes w' = f" using f by simp
  have "\<forall>i. g i = nodes w i \<or> (nodes w i = None \<and> i \<noteq> [] \<and> (\<exists>t. g i = Some (Directory t)))"
  proof
    fix i
    from ff have 1: "f i = nodes w i \<or>
                     (nodes w i = None \<and> i \<noteq> [] \<and> (\<exists>t. f i = Some (Directory t)))"
      by (rule spec)
    from gg have 2: "g i = f i \<or> (f i = None \<and> i \<noteq> [] \<and> (\<exists>t. g i = Some (Directory t)))"
      unfolding nf by (rule spec)
    from 1 2 show "g i = nodes w i \<or> (nodes w i = None \<and> i \<noteq> [] \<and> (\<exists>t. g i = Some (Directory t)))"
      by auto
  qed
  moreover have "w'' = w\<lparr>nodes := g\<rparr>" using f g by simp
  ultimately show ?thesis unfolding grows_def by blast
qed

lemma grows_fields:
  assumes "grows w w'"
  shows "cwd w' = cwd w" and "clock w' = clock w" and "trace w' = trace w"
    and "created_directories w' = created_directories w" and "network w' = network w"
    and "s3_bucket w' = s3_bucket w" and "stats w' = stats w"
    and "nodes w i = Some n \<Longrightarrow> nodes w' i = Some n"
    and "extends w w'"
proof -
  from assms obtain f where f: "w' = w\<lparr>nodes := f\<rparr>"
    and ff: "\<forall>i. f i = nodes w i \<or> (nodes w i = None \<and> i \<noteq> [] \<and> (\<exists>t. f i = Some (Directory t)))"
    unfolding grows_def by blast
  show "cwd w' = cwd w" "clock w' = clock w" "trace w' = trace w"
    "created_directories w' = created_directories w" "network w' = network w"
    "s3_bucket w' = s3_bucket w" "stats w' = stats w"
    using f by simp_all
  show k: "nodes w i = Some n \<Longrightarrow> nodes w' i = Some n" for i n
  proof -
    assume a: "nodes w i = Some n"
    from ff have "f i = nodes w i \<or>
                  (nodes w i = None \<and> i \<noteq> [] \<and> (\<exists>t. f i = Some (Directory t)))"
      by (rule spec)
    with a have "f i = Some n" by auto
    with f show ?thesis by simp
  qed
  have "is_dir w i \<longrightarrow> is_dir w' i" for i
  proof
    assume "is_dir w i"
    then show "is_dir w' i"
      using k [of i] by (auto simp: is_dir_def split: option.splits node.splits)
  qed
  with f show "extends w w'" by (simp add: extends_def)
qed

lemma os_mkdir_grows: "os_mkdir p w = (r, w') \<Longrightarrow> grows w w'"
proof -
  assume a: "os_mkdir p w = (r, w')"
  show ?thesis
  proof (cases "resolve w p")
    case None
    with a have "w' = w" by (simp add: os_mkdir_def)
    then show ?thesis by (simp add: grows_refl)
  next
    case (Some i)
    show ?thesis
    proof (cases "node_at w i")
      case (Some n)
      with a \<open>resolve w p = Some i\<close> have "w' = w" by (simp add: os_mkdir_def)
      then show ?thesis by (simp add: grows_refl)
    next
      case None
      then have ni: "i \<noteq> []" and nn: "nodes w i = None"
        by (auto simp: node_at_def split: if_splits)
      from a None \<open>resolve w p = Some i\<close>
      have "w' = w\<lparr>nodes := (nodes w)(i \<mapsto> Directory (clock w))\<rparr>"
        by (simp add: os_mkdir_def)
      with ni nn show ?thesis
        unfolding grows_def
        by (intro exI [of _ "(nodes w)(i \<mapsto> Directory (clock w))"]) auto
    qed
  qed
qed

lemma makedirs_rec_grows: "makedirs_rec name w = (r, w') \<Longrightarrow> grows w w'"
proof (induction name w arbitrary: r w' rule: makedirs_rec.induct)
  case (1 name w)
  let ?h = "fst (makedirs_parts name)"
  let ?t = "snd (makedirs_parts name)"
  show ?case
  proof (cases "?h \<noteq> [] \<and> ?t \<noteq> [] \<and> \<not> path_exists w ?h")
    case False
    with "1.prems" have "os_mkdir name w = (r, w')"
      by (subst (asm) makedirs_rec.simps) simp
    then show ?thesis by (rule os_mkdir_grows)
  next
    case True
    obtain o1 w1 where m: "makedirs_rec ?h w = (o1, w1)"
      by (cases "makedirs_rec ?h w")
    from "1.IH" [OF True m] have g1: "grows w w1" .
    from "1.prems" True m
    have "w' = w1 \<or> os_mkdir name w1 = (r, w')"
      by (subst (asm) makedirs_rec.simps) (auto split: sum.splits if_splits)
    then show ?thesis
    proof
      assume "w' = w1"
      with g1 show ?thesis by simp
    next
      assume "os_mkdir name w1 = (r, w')"
      from grows_trans [OF g1 os_mkdir_grows [OF this]] show ?thesis .
    qed
  qed
qed


text \<open>What is read from the file system depends on the tree and the working directory
  only.\<close>

lemma trace_update_tree [simp]:
  "resolve (trace_update f w) = resolve w"
  "lookup (trace_update f w) = lookup w"
  "fs_mtime (trace_update f w) = fs_mtime w"
  "fs_content (trace_update f w) = fs_content w"
  "fs_data (trace_update f w) = fs_data w"
  "path_exists (trace_update f w) = path_exists w"
  "fs_exists (trace_update f w) = fs_exists w"
  "is_dir (trace_update f w) = is_dir w"
  by (rule same_tree, simp, simp)+ (simp add: is_dir_def fun_eq_iff)

lemma stats_update_tree [simp]:
  "resolve (stats_update f w) = resolve w"
  "lookup (stats_update f w) = lookup w"
  "fs_mtime (stats_update f w) = fs_mtime w"
  "fs_content (stats_update f w) = fs_content w"
  "fs_data (stats_update f w) = fs_data w"
  "path_exists (stats_update f w) = path_exists w"
  "fs_exists (stats_update f w) = fs_exists w"
  "is_dir (stats_update f w) = is_dir w"
  by (rule same_tree, simp, simp)+ (simp add: is_dir_def fun_eq_iff)

lemma created_directories_update_tree [simp]:
  "resolve (created_directories_update f w) = resolve w"
  "lookup (created_directories_update f w) = lookup w"
  "fs_mtime (created_directories_update f w) = fs_mtime w"
  "fs_content (created_directories_update f w) = fs_content w"
  "fs_data (created_directories_update f w) = fs_data w"
  "path_exists (created_directories_update f w) = path_exists w"
  "fs_exists (created_directories_update f w) = fs_exists w"
  "is_dir (created_directories_update f w) = is_dir w"
  by (rule same_tree, simp, simp)+ (simp add: is_dir_def fun_eq_iff)

lemma s3_bucket_update_tree [simp]:
  "resolve (s3_bucket_update f w) = resolve w"
  "lookup (s3_bucket_update f w) = lookup w"
  "fs_mtime (s3_bucket_update f w) = fs_mtime w"
  "fs_content (s3_bucket_update f w) = fs_content w"
  "fs_data (s3_bucket_update f w) = fs_data w"
  "path_exists (s3_bucket_update f w) = path_exists w"
  "fs_exists (s3_bucket_update f w) = fs_exists w"
  "is_dir (s3_bucket_update f w) = is_dir w"
  by (rule same_tree, simp, simp)+ (simp add: is_dir_def fun_eq_iff)

lemma network_update_tree [simp]:
  "resolve (network_update f w) = resolve w"
  "lookup (network_update f w) = lookup w"
  "fs_mtime (network_update f w) = fs_mtime w"
  "fs_content (network_update f w) = fs_content w"
  "fs_data (network_update f w) = fs_data w"
  "path_exists (network_update f w) = path_exists w"
  "fs_exists (network_update f w) = fs_exists w"
  "is_dir (network_update f w) = is_dir w"
  by (rule same_tree, simp, simp)+ (simp add: is_dir_def fun_eq_iff)

lemma makedirs_grows:
  assumes "makedirs d w = (r, w')"
  shows "grows (w\<lparr>trace := trace w @ [Makedirs d]\<rparr>) w'"
proof -
  obtain r1 w1 where m: "makedirs_rec d (w\<lparr>trace := trace w @ [Makedirs d]\<rparr>) = (r1, w1)"
    by (cases "makedirs_rec d (w\<lparr>trace := trace w @ [Makedirs d]\<rparr>)")
  from assms m have "w' = w1"
    by (cases r1) (simp_all add: makedirs_def)
  with makedirs_rec_grows [OF m] show ?thesis by simp
qed

lemma makedirs_error: "makedirs d w = (Inl e, w') \<Longrightarrow> e = OSError"
  by (simp add: makedirs_def split: prod.splits sum.splits)

text \<open>The shape of what \<open>_mkdir\<close> leaves: the dictionary and the trace may have changed,
  and directories may have been added.\<close>

lemma mkdir_shape:
  assumes "mkdir dn k w = (r, w')"
  shows "\<exists>c1 t1 c2 w2.
           (t1 = trace w \<or> t1 = trace w @ [Makedirs dn]) \<and>
           grows (w\<lparr>created_directories := c1, trace := t1\<rparr>) w2 \<and>
           w' = w2\<lparr>created_directories := c2\<rparr>"
proof -
  define seen where "seen = (if truthy k
                  then (case created_directories w k of None \<Rightarrow> {} | Some s \<Rightarrow> s)
                  else {})"
  define w1 where "w1 = (if truthy k
                then w\<lparr>created_directories := (created_directories w)(k \<mapsto> seen)\<rparr>
                else w)"
  have w1: "w\<lparr>created_directories := created_directories w1, trace := trace w\<rparr> = w1"
    by (simp add: w1_def)
  have w1t: "w\<lparr>created_directories := created_directories w1, trace := trace w @ [Makedirs dn]\<rparr>
              = w1\<lparr>trace := trace w1 @ [Makedirs dn]\<rparr>"
    by (simp add: w1_def)
  have m: "mkdir dn k w =
     (if dn \<notin> seen
         then (case (if \<not> path_exists w1 dn then makedirs dn w1 else (Inr (), w1)) of
                 (Inl e, w2) \<Rightarrow> (Inl e, w2)
               | (Inr u, w2) \<Rightarrow>
                   (Inr (),
                    if truthy k
                    then w2\<lparr>created_directories :=
                              (created_directories w2)(k \<mapsto> insert dn seen)\<rparr>
                    else w2))
         else (Inr (), w1))"
    unfolding mkdir_def seen_def w1_def Let_def by (rule refl)
  have fin: "?thesis"
    if g: "grows (w\<lparr>created_directories := c1, trace := t1\<rparr>) w2"
      and t: "t1 = trace w \<or> t1 = trace w @ [Makedirs dn]"
      and d: "w' = w2 \<or> w' = w2\<lparr>created_directories := c2\<rparr>"
    for c1 t1 w2 c2
  proof -
    from d have "w' = w2\<lparr>created_directories := created_directories w'\<rparr>"
      by (elim disjE) simp_all
    with g t show ?thesis
      by (intro exI [of _ c1] exI [of _ t1] exI [of _ "created_directories w'"] exI [of _ w2])
        simp
  qed
  show ?thesis
  proof (cases "dn \<notin> seen \<and> \<not> path_exists w1 dn")
    case False
    with assms m
    have d: "w' = w1 \<or>
          w' = w1\<lparr>created_directories := (created_directories w1)(k \<mapsto> insert dn seen)\<rparr>"
      by (simp split: if_splits)
    have g: "grows (w\<lparr>created_directories := created_directories w1, trace := trace w\<rparr>) w1"
      by (subst w1) (rule grows_refl)
    show ?thesis by (rule fin [OF g _ d]) simp
  next
    case True
    obtain o2 w2 where md: "makedirs dn w1 = (o2, w2)"
      by (cases "makedirs dn w1")
    from makedirs_grows [OF md]
    have g: "grows (w\<lparr>created_directories := created_directories w1,
                       trace := trace w @ [Makedirs dn]\<rparr>) w2"
      by (subst w1t)
    from assms m True md
    have d: "w' = w2 \<or>
         w' = w2\<lparr>created_directories := (created_directories w2)(k \<mapsto> insert dn seen)\<rparr>"
      by (cases o2) (simp_all split: if_splits)
    show ?thesis by (rule fin [OF g _ d]) simp
  qed
qed

lemma mkdir_tree:
  assumes "mkdir dn k w = (r, w')"
  shows "cwd w' = cwd w" and "clock w' = clock w" and "network w' = network w"
    and "s3_bucket w' = s3_bucket w" and "stats w' = stats w" and "extends w w'"
    and "nodes w i = Some n \<Longrightarrow> nodes w' i = Some n"
    and "trace w' = trace w \<or> trace w' = trace w @ [Makedirs dn]"
proof -
  from mkdir_shape [OF assms] obtain c1 t1 c2 w2 where
    t: "t1 = trace w \<or> t1 = trace w @ [Makedirs dn]"
    and g: "grows (w\<lparr>created_directories := c1, trace := t1\<rparr>) w2"
    and w': "w' = w2\<lparr>created_directories := c2\<rparr>"
    by blast
  let ?w0 = "w\<lparr>created_directories := c1, trace := t1\<rparr>"
  note f = grows_fields [OF g]
  show "cwd w' = cwd w" "clock w' = clock w" "network w' = network w"
    "s3_bucket w' = s3_bucket w" "stats w' = stats w"
    using f w' by simp_all
  show "trace w' = trace w \<or> trace w' = trace w @ [Makedirs dn]"
    using f(3) w' t by auto
  show "nodes w i = Some n \<Longrightarrow> nodes w' i = Some n"
    using f(8) [of i n] w' by simp
  have a: "extends w ?w0" by (rule same_tree(8)) simp_all
  have b: "extends w2 w'" using w' by (intro same_tree(8)) simp_all
  from extends_trans [OF extends_trans [OF a f(9)] b] show "extends w w'" .
qed

lemma mkdir_error: "mkdir d k w = (Inl e, w') \<Longrightarrow> e = OSError"
  by (auto simp: mkdir_def Let_def split: if_splits prod.splits sum.splits
        dest: makedirs_error)

text \<open>What \<open>image.save\<close> leaves: nothing, or one regular file written where the path
  leads.\<close>

lemma image_save_shape:
  assumes "image_save L im path w = (r, w')"
  shows "(w' = w \<and> r = Inl IOError) \<or>
         (\<exists>i b rd. resolve w path = Some i \<and> \<not> is_dir w i \<and>
            w' = w\<lparr>nodes := (nodes w)(i \<mapsto> RegularFile (clock w) b rd),
                    trace := trace w @ [Saved path b]\<rparr> \<and>
            (r = Inl IOError \<or> (r = Inr () \<and> img_save L im = Some b)))"
  using assms
  by (auto simp: image_save_def Let_def split: option.splits if_splits)

lemma image_save_error: "image_save L im p w = (Inl e, w') \<Longrightarrow> e = IOError"
  using image_save_shape [of L im p w "Inl e" w'] by auto

lemma write_extends:
  assumes "\<not> is_dir w i"
  shows "extends w (w\<lparr>nodes := (nodes w)(i \<mapsto> RegularFile t b rd), trace := tr\<rparr>)"
  using assms by (auto simp: extends_def is_dir_def)

lemma image_save_tree:
  assumes "image_save L im path w = (r, w')"
  shows "cwd w' = cwd w" and "clock w' = clock w" and "network w' = network w"
    and "s3_bucket w' = s3_bucket w" and "stats w' = stats w" and "extends w w'"
    and "created_directories w' = created_directories w"
    and "resolve w path \<noteq> Some i \<Longrightarrow> nodes w' i = nodes w i"
  using image_save_shape [OF assms] write_extends extends_refl
  by auto

lemma image_save_written:
  assumes "image_save L im path w = (Inr u, w')"
  shows "\<exists>i rd. resolve w path = Some i \<and> i \<noteq> [] \<and> last path \<noteq> CHR ''/'' \<and>
                nodes w' i = Some (RegularFile (clock w) (the (img_save L im)) rd) \<and>
                img_save L im \<noteq> None"
  using assms
  by (auto simp: image_save_def Let_def is_dir_def split: option.splits if_splits)


subsection \<open>Keys\<close>

lemma hexdigit_inj:
  assumes "m < 16" "n < 16" "hexdigit m = hexdigit n"
  shows "m = n"
proof -
  have d: "distinct ''0123456789abcdef''" by simp
  have l: "length ''0123456789abcdef'' = 16" by simp
  from assms show ?thesis
    unfolding hexdigit_def using nth_eq_iff_index_eq [OF d, of m n] l by simp
qed

lemma hexdigit_lower: "n < 16 \<Longrightarrow> hexdigit n \<in> set ''0123456789abcdef''"
  unfolding hexdigit_def by (rule nth_mem) simp

lemma of_char_high_nibble: "(of_char a :: nat) div 16 < 16"
proof -
  have "(of_char a :: nat) < 256" by (simp add: of_char_def)
  then show ?thesis by arith
qed

lemma hex_pair_inj:
  fixes a b :: char
  assumes "hexdigit (of_char a div 16) = hexdigit (of_char b div 16)"
    and "hexdigit (of_char a mod 16) = hexdigit (of_char b mod 16)"
  shows "a = b"
proof -
  have "(of_char a :: nat) div 16 = of_char b div 16"
    using assms(1) by (intro hexdigit_inj of_char_high_nibble)
  moreover have "(of_char a :: nat) mod 16 = of_char b mod 16"
    using assms(2) by (intro hexdigit_inj) auto
  ultimately have "(of_char a :: nat) = of_char b"
    by (metis div_mult_mod_eq)
  then show ?thesis by simp
qed

lemma hexdigest_inj: "hexdigest d = hexdigest e \<Longrightarrow> d = e"
proof (induction d arbitrary: e)
  case Nil
  then show ?case by (cases e) (simp_all add: hexdigest_def)
next
  case (Cons a d)
  then obtain b e' where e: "e = b # e'"
    by (cases e) (simp_all add: hexdigest_def)
  from Cons.prems e have "a = b" and "hexdigest d = hexdigest e'"
    by (auto simp: hexdigest_def intro: hex_pair_inj)
  with Cons.IH e show ?case by simp
qed

lemma hexdigest_lower: "set (hexdigest d) \<subseteq> set ''0123456789abcdef''"
proof (induction d)
  case Nil
  show ?case by (simp add: hexdigest_def)
next
  case (Cons a d)
  have "hexdigit (of_char a div 16) \<in> set ''0123456789abcdef''"
    by (intro hexdigit_lower of_char_high_nibble)
  moreover have "hexdigit (of_char a mod 16) \<in> set ''0123456789abcdef''"
    by (intro hexdigit_lower) auto
  ultimately show ?case using Cons.IH by (simp add: hexdigest_def)
qed


text \<open>
  C3. Key derivation. The primary key of a URL is \<open>full/\<close>, the hexadecimal digest of
  the URL and \<open>.jpg\<close>; the key of the thumbnail \<open>t\<close> is \<open>thumbs/\<close>, \<open>t\<close>, \<open>/\<close>, the
  same digest and \<open>.jpg\<close>. The digest is written with the digits \<open>0-9a-f\<close> only. Both
  keys are functions of the URL (and \<open>t\<close>) alone, so a repeated call returns the same key,
  and two URLs get the same key exactly when \<open>sha1\<close> gives them the same digest: keys
  collide only where SHA-1 does.
\<close>

theorem C3_key_derivation:
  "image_key L u = ''full/'' @ hexdigest (sha1 L u) @ ''.jpg'' \<and>
   thumb_key L u t = ''thumbs/'' @ t @ ''/'' @ hexdigest (sha1 L u) @ ''.jpg'' \<and>
   set (hexdigest (sha1 L u)) \<subseteq> set ''0123456789abcdef'' \<and>
   (image_key L u = image_key L v) = (sha1 L u = sha1 L v) \<and>
   (thumb_key L u t = thumb_key L v t) = (sha1 L u = sha1 L v)"
proof -
  have inj: "(hexdigest (sha1 L u) = hexdigest (sha1 L v)) = (sha1 L u = sha1 L v)"
    by (auto dest: hexdigest_inj)
  have low: "set (hexdigest (sha1 L u)) \<subseteq> set ''0123456789abcdef''"
    by (rule hexdigest_lower)
  have k: "(image_key L u = image_key L v) = (sha1 L u = sha1 L v)"
    by (simp add: image_key_def Let_def inj)
  have t: "(thumb_key L u t = thumb_key L v t) = (sha1 L u = sha1 L v)"
    by (simp add: thumb_key_def Let_def inj)
  have a: "image_key L u = ''full/'' @ hexdigest (sha1 L u) @ ''.jpg''"
    by (simp add: image_key_def Let_def)
  have b: "thumb_key L u t = ''thumbs/'' @ t @ ''/'' @ hexdigest (sha1 L u) @ ''.jpg''"
    by (simp add: thumb_key_def Let_def)
  show ?thesis by (intro conjI a b low k t)
qed


subsection \<open>Freshness\<close>

text \<open>
  C2, as the code has it. The callback returns \<open>None\<close> (download) when the stat result
  is \<open>None\<close> or the empty dictionary, when it has no \<open>last_modified\<close>, and when
  \<open>last_modified\<close> is 0. For any other time stamp \<open>lm\<close> the age in days is what double
  precision makes of \<open>(now - lm) / 60 / 60 / 24\<close>, the subtraction and each of the three
  divisions rounded to the nearest double; the callback returns \<open>None\<close> exactly when that
  number is greater than \<open>EXPIRES\<close>, and otherwise (the number equal to \<open>EXPIRES\<close>
  included) the result that skips the download.
\<close>

theorem C2_freshness_decision:
  "(res = None \<or> res = Some empty_stat \<longrightarrow>
      fst (onsuccess P req info key res w) = Inr None) \<and>
   (res = Some r \<and> (last_modified r = None \<or> last_modified r = Some 0) \<longrightarrow>
      fst (onsuccess P req info key res w) = Inr None) \<and>
   (res = Some r \<and> last_modified r = Some lm \<and> lm \<noteq> 0 \<longrightarrow>
      (fst (onsuccess P req info key res w) = Inr None)
        = float_gt (float_div (float_div (float_div (float_sub (clock w) lm) 60) 60) 24)
            (EXPIRES P) \<and>
      (\<not> float_gt (float_div (float_div (float_div (float_sub (clock w) lm) 60) 60) 24)
            (EXPIRES P) \<longrightarrow>
         fst (onsuccess P req info key res w)
           = Inr (Some \<lparr>r_url = url req, r_path = key, r_checksum = checksum r\<rparr>)))"
proof -
  have ne: "last_modified r = Some lm \<Longrightarrow> r \<noteq> empty_stat" for lm
    by (auto simp: empty_stat_def)
  show ?thesis
    by (auto simp: onsuccess_def Let_def ne split: option.split)
qed

theorem C2_freshness_decision_witness:
  "fst (onsuccess demo_pipeline demo_request demo_info ''k''
          (Some \<lparr>last_modified = Some 7776000, checksum = Some ''c''\<rparr>)
          (demo_world\<lparr>clock := 15552000\<rparr>))
     = Inr (Some \<lparr>r_url = url demo_request, r_path = ''k'', r_checksum = Some ''c''\<rparr>) \<and>
   (fst (onsuccess demo_pipeline demo_request demo_info ''k''
          (Some \<lparr>last_modified = Some 7776000, checksum = Some ''c''\<rparr>)
          (demo_world\<lparr>clock := 15552001\<rparr>)) = Inr None) \<and>
   fst (onsuccess demo_pipeline demo_request demo_info ''k'' (Some empty_stat) demo_world)
     = Inr None"
proof -
  let ?r = "\<lparr>last_modified = Some 7776000, checksum = Some ''c''\<rparr>"
  have a: "\<not> float_gt (float_div (float_div (float_div
               (float_sub (clock (demo_world\<lparr>clock := 15552000\<rparr>)) 7776000) 60) 60) 24)
             (EXPIRES demo_pipeline)"
    by code_simp
  have b: "float_gt (float_div (float_div (float_div
               (float_sub (clock (demo_world\<lparr>clock := 15552001\<rparr>)) 7776000) 60) 60) 24)
             (EXPIRES demo_pipeline)"
    by code_simp
  from a b
    C2_freshness_decision [of "Some ?r" demo_pipeline demo_request demo_info "''k''"
      "demo_world\<lparr>clock := 15552000\<rparr>" ?r 7776000]
    C2_freshness_decision [of "Some ?r" demo_pipeline demo_request demo_info "''k''"
      "demo_world\<lparr>clock := 15552001\<rparr>" ?r 7776000]
    C2_freshness_decision [of "Some empty_stat" demo_pipeline demo_request demo_info "''k''"
      demo_world empty_stat 0]
  show ?thesis by simp
qed

text \<open>
  C2 as the specification words it fails in two places. At a file whose time stamp is 0:
  with the clock at 1800000000 and \<open>EXPIRES\<close> at 100000 days the time stamp is present and
  the age, 20833 days and a third, is within the window, yet the callback forces the
  download. And at the boundary: with the clock at 7776000.25, the time stamp
  0.25 - 1/2^40 (both are doubles) and \<open>EXPIRES\<close> at 90 days, the age
  \<open>(now - lm) / 86400\<close> is greater than 90, yet the subtraction rounds to 7776000, the
  code's age is 90 and the callback skips the download.
\<close>

theorem C2_counterexample:
  "last_modified \<lparr>last_modified = Some 0, checksum = Some ''4a50''\<rparr> = Some 0 \<and>
   (clock (demo_world\<lparr>clock := 1800000000\<rparr>) - 0) / 86400
     \<le> real_of_int (EXPIRES (demo_pipeline\<lparr>EXPIRES := 100000\<rparr>)) \<and>
   fst (onsuccess (demo_pipeline\<lparr>EXPIRES := 100000\<rparr>) demo_request demo_info
          (image_key demo_libs (url demo_request))
          (Some \<lparr>last_modified = Some 0, checksum = Some ''4a50''\<rparr>)
          (demo_world\<lparr>clock := 1800000000\<rparr>)) = Inr None \<and>
   to_double (31104001 / 4) = Finite (31104001 / 4) \<and>
   to_double (274877906943 / 1099511627776) = Finite (274877906943 / 1099511627776) \<and>
   (clock (demo_world\<lparr>clock := 31104001 / 4\<rparr>) - 274877906943 / 1099511627776) / 86400
     > real_of_int (EXPIRES demo_pipeline) \<and>
   fst (onsuccess demo_pipeline demo_request demo_info
          (image_key demo_libs (url demo_request))
          (Some \<lparr>last_modified = Some (274877906943 / 1099511627776),
                 checksum = Some ''4a50''\<rparr>)
          (demo_world\<lparr>clock := 31104001 / 4\<rparr>))
     = Inr (Some \<lparr>r_url = url demo_request,
                  r_path = image_key demo_libs (url demo_request),
                  r_checksum = Some ''4a50''\<rparr>)"
  by code_simp

lemma demo_path: "get_filesystem_path ''/data'' ''full/6874.jpg'' = ''/data/full/6874.jpg''"
  by (simp add: get_filesystem_path_def os_path_join_def)

lemma onsuccess_Inr: "\<exists>x. fst (onsuccess P req info key res w) = Inr x"
  by (simp add: onsuccess_def Let_def split: option.split)

lemma addErrback_Inr: "fst d = Inr x \<Longrightarrow> addErrback f d = d"
  by (cases d) (simp add: addErrback_def)

lemma media_to_download_unfold:
  "media_to_download L P req info w =
     (case stat_image L (store P) (image_key L (url req)) info w of
        (Inl e, w1) \<Rightarrow> (Inr None, w1)
      | (Inr res, w1) \<Rightarrow> onsuccess P req info (image_key L (url req)) res w1)"
proof (cases "stat_image L (store P) (image_key L (url req)) info w")
  case (Pair o1 w1)
  show ?thesis
  proof (cases o1)
    case (Inl e)
    with Pair show ?thesis
      by (simp add: media_to_download_def Let_def addCallbacks_def addErrback_def)
  next
    case (Inr res)
    obtain x where "fst (onsuccess P req info (image_key L (url req)) res w1) = Inr x"
      using onsuccess_Inr by blast
    then have "addErrback (\<lambda>e w'. (Inr None, w'))
                 (onsuccess P req info (image_key L (url req)) res w1)
               = onsuccess P req info (image_key L (url req)) res w1"
      by (rule addErrback_Inr)
    with Pair Inr show ?thesis
      by (simp add: media_to_download_def Let_def addCallbacks_def)
  qed
qed

text \<open>
  C10. When the store's stat reports a \<open>last_modified\<close> of 0, \<open>media_to_download\<close>
  returns \<open>None\<close>, whatever the clock, the expiry window and the checksum are: the
  callback answers as it does for a dictionary without \<open>last_modified\<close>.
\<close>

theorem C10_zero_timestamp_forces_download:
  assumes "fst (stat_image L (store P) (image_key L (url req)) info w) = Inr (Some r)"
    and "last_modified r = Some 0"
  shows "fst (media_to_download L P req info w) = Inr None \<and>
         onsuccess P req info key (Some r) w'
           = onsuccess P req info key (Some (r\<lparr>last_modified := None\<rparr>)) w'"
proof -
  obtain w1 where s: "stat_image L (store P) (image_key L (url req)) info w = (Inr (Some r), w1)"
    using assms(1) by (cases "stat_image L (store P) (image_key L (url req)) info w") simp
  have a: "fst (media_to_download L P req info w) = Inr None"
    using s assms(2) by (simp add: media_to_download_unfold onsuccess_def)
  have b: "onsuccess P req info key (Some r) w'
             = onsuccess P req info key (Some (r\<lparr>last_modified := None\<rparr>)) w'"
    using assms(2) by (simp add: onsuccess_def)
  from a b show ?thesis by (rule conjI)
qed

theorem C10_zero_timestamp_forces_download_witness:
  "fst (stat_image demo_libs (store demo_pipeline) (image_key demo_libs (url demo_request))
          demo_info (demo_stored 0))
     = Inr (Some \<lparr>last_modified = Some 0, checksum = Some ''4a50''\<rparr>) \<and>
   fst (media_to_download demo_libs demo_pipeline demo_request demo_info (demo_stored 0))
     = Inr None"
proof -
  have s: "fst (stat_image demo_libs (store demo_pipeline)
                 (image_key demo_libs (url demo_request)) demo_info (demo_stored 0))
             = Inr (Some \<lparr>last_modified = Some 0, checksum = Some ''4a50''\<rparr>)"
    by code_simp
  have l: "last_modified \<lparr>last_modified = Some 0, checksum = Some ''4a50''\<rparr> = Some 0"
    by simp
  from C10_zero_timestamp_forces_download [OF s l] s show ?thesis by simp
qed


lemma s3_effect_other: "req_method req \<noteq> ''PUT'' \<Longrightarrow> s3_effect req w = w"
  by (simp add: s3_effect_def split: sum.split)

lemma stat_image_world:
  "snd (stat_image L st key info w) = w\<lparr>trace := trace w @ stat_requests st key info\<rparr>"
proof (cases st)
  case (FSImagesStore d)
  then show ?thesis
    by (simp add: stat_image_def stat_requests_def split: sum.split)
next
  case (S3ImagesStore b p sp)
  then show ?thesis
    by (simp add: stat_image_def stat_requests_def s3_stat_image_def download_request_def
          s3_effect_other build_request_def Let_def split: option.split sum.split)
qed

text \<open>
  C4. When \<open>media_to_download\<close> returns a result (the download is skipped), the result
  holds the URL of the request, the primary key of that URL as its path, and the checksum
  the store's stat reported. On the way the world changes in two places only: the stats
  counters for \<open>uptodate\<close>, and the request of the stat itself in the trace (none for the
  file system store, one \<open>HEAD\<close> request for S3). No file is written, no directory is
  made, \<open>persist_image\<close> is not called. That the engine then drops the fetch is the
  media pipeline's part and lies outside this module.
\<close>

theorem C4_skip_result:
  assumes "fst (media_to_download L P req info w) = Inr (Some res)"
  shows "r_url res = url req \<and> r_path res = image_key L (url req) \<and>
         (\<exists>st. fst (stat_image L (store P) (image_key L (url req)) info w) = Inr (Some st) \<and>
               r_checksum res = checksum st) \<and>
         snd (media_to_download L P req info w)
           = inc_stats (domain info) ''uptodate''
               (w\<lparr>trace := trace w @ stat_requests (store P) (image_key L (url req)) info\<rparr>) \<and>
         fs_content (snd (media_to_download L P req info w)) = fs_content w \<and>
         fs_mtime (snd (media_to_download L P req info w)) = fs_mtime w \<and>
         fs_exists (snd (media_to_download L P req info w)) = fs_exists w \<and>
         created_directories (snd (media_to_download L P req info w)) = created_directories w \<and>
         trace (snd (media_to_download L P req info w))
           = trace w @ stat_requests (store P) (image_key L (url req)) info"
proof -
  let ?key = "image_key L (url req)"
  let ?w1 = "w\<lparr>trace := trace w @ stat_requests (store P) ?key info\<rparr>"
  obtain o1 w1 where s: "stat_image L (store P) ?key info w = (o1, w1)"
    by (cases "stat_image L (store P) ?key info w")
  have w1: "w1 = ?w1"
    using stat_image_world [of L "store P" ?key info w] s by simp
  from assms s obtain st where o1: "o1 = Inr (Some st)"
    and on: "fst (onsuccess P req info ?key (Some st) w1) = Inr (Some res)"
    by (cases o1; cases "projr o1")
       (auto simp: media_to_download_unfold onsuccess_def)
  from on have res: "res = \<lparr>r_url = url req, r_path = ?key, r_checksum = checksum st\<rparr>"
    and sn: "snd (onsuccess P req info ?key (Some st) w1) = inc_stats (domain info) ''uptodate'' w1"
    by (auto simp: onsuccess_def Let_def split: option.splits if_splits)
  have m: "snd (media_to_download L P req info w) = inc_stats (domain info) ''uptodate'' ?w1"
    using s o1 sn w1 by (simp add: media_to_download_unfold)
  have fr: "fs_content (inc_stats (domain info) ''uptodate'' ?w1) = fs_content w"
      "fs_mtime (inc_stats (domain info) ''uptodate'' ?w1) = fs_mtime w"
      "fs_exists (inc_stats (domain info) ''uptodate'' ?w1) = fs_exists w"
      "created_directories (inc_stats (domain info) ''uptodate'' ?w1) = created_directories w"
      "trace (inc_stats (domain info) ''uptodate'' ?w1)
         = trace w @ stat_requests (store P) ?key info"
    by (simp_all add: inc_stats_def inc_value_def)
  have st: "\<exists>st. fst (stat_image L (store P) ?key info w) = Inr (Some st) \<and>
                 r_checksum res = checksum st"
    using s o1 res by auto
  show ?thesis
    unfolding m fr using res st m by simp
qed

theorem C4_skip_result_witness:
  "fst (media_to_download demo_libs demo_pipeline demo_request demo_info (demo_stored 900))
     = Inr (Some \<lparr>r_url = ''http://example.com/a.jpg'', r_path = ''full/6874.jpg'',
                   r_checksum = Some ''4a50''\<rparr>) \<and>
   trace (snd (media_to_download demo_libs demo_pipeline demo_request demo_info
                 (demo_stored 900))) = [] \<and>
   fs_content (snd (media_to_download demo_libs demo_pipeline demo_request demo_info
                      (demo_stored 900))) = fs_content (demo_stored 900)"
proof -
  have h: "fst (media_to_download demo_libs demo_pipeline demo_request demo_info
                  (demo_stored 900))
             = Inr (Some \<lparr>r_url = ''http://example.com/a.jpg'', r_path = ''full/6874.jpg'',
                           r_checksum = Some ''4a50''\<rparr>)"
    by code_simp
  have t: "trace (demo_stored 900) = []"
    by (simp add: demo_stored_def demo_world_def)
  have q: "stat_requests (store demo_pipeline) k demo_info = []" for k
    by (simp add: stat_requests_def demo_pipeline_def)
  from C4_skip_result [OF h]
  have "trace (snd (media_to_download demo_libs demo_pipeline demo_request demo_info
                      (demo_stored 900)))
          = trace (demo_stored 900)
              @ stat_requests (store demo_pipeline) (image_key demo_libs (url demo_request))
                  demo_info"
    and "fs_content (snd (media_to_download demo_libs demo_pipeline demo_request demo_info
                            (demo_stored 900))) = fs_content (demo_stored 900)"
    by blast+
  with h t q show ?thesis by simp
qed

subsection \<open>Stat failures\<close>

text \<open>
  C5, as the code has it. \<open>FSImagesStore.stat_image\<close> returns the empty dictionary when
  the modification time of the file cannot be read; when the time can be read and the file
  cannot be opened for the checksum, it raises. \<open>media_to_download\<close> never fails,
  whichever store it asks: a stat that raises, returns \<open>None\<close> or returns the empty
  dictionary ends in the result \<open>None\<close>, the download.
\<close>

theorem C5_stat_failures_degrade:
  "(fs_mtime w (get_filesystem_path d key) = None \<longrightarrow>
      fs_stat_image L d key info w = Inr empty_stat) \<and>
   (fs_mtime w (get_filesystem_path d key) \<noteq> None \<and>
    fs_content w (get_filesystem_path d key) = None \<longrightarrow>
      fs_stat_image L d key info w = Inl IOError) \<and>
   (\<exists>r. fst (media_to_download L P req info w) = Inr r) \<and>
   ((\<exists>e. fst (stat_image L (store P) (image_key L (url req)) info w) = Inl e) \<or>
    fst (stat_image L (store P) (image_key L (url req)) info w) = Inr None \<or>
    fst (stat_image L (store P) (image_key L (url req)) info w) = Inr (Some empty_stat) \<longrightarrow>
      fst (media_to_download L P req info w) = Inr None)"
proof -
  let ?key = "image_key L (url req)"
  obtain o1 w1 where s: "stat_image L (store P) ?key info w = (o1, w1)"
    by (cases "stat_image L (store P) ?key info w")
  have a: "fs_mtime w (get_filesystem_path d key) = None \<longrightarrow>
             fs_stat_image L d key info w = Inr empty_stat"
    by (simp add: fs_stat_image_def Let_def)
  have b: "fs_mtime w (get_filesystem_path d key) \<noteq> None \<and>
           fs_content w (get_filesystem_path d key) = None \<longrightarrow>
             fs_stat_image L d key info w = Inl IOError"
    by (auto simp: fs_stat_image_def Let_def)
  have c: "\<exists>r. fst (media_to_download L P req info w) = Inr r"
    using s onsuccess_Inr [of P req info ?key _ w1]
    by (cases o1) (simp_all add: media_to_download_unfold)
  have e: "(\<exists>e. fst (stat_image L (store P) ?key info w) = Inl e) \<or>
           fst (stat_image L (store P) ?key info w) = Inr None \<or>
           fst (stat_image L (store P) ?key info w) = Inr (Some empty_stat) \<longrightarrow>
             fst (media_to_download L P req info w) = Inr None"
    using s by (auto simp: media_to_download_unfold onsuccess_def)
  from a b c e show ?thesis by (intro conjI)
qed

theorem C5_stat_failures_degrade_witness:
  "fs_stat_image demo_libs ''/data'' ''full/6874.jpg'' demo_info demo_world = Inr empty_stat \<and>
   fst (media_to_download demo_libs demo_pipeline demo_request demo_info demo_world) = Inr None \<and>
   fs_stat_image demo_libs ''/data'' ''full/6874.jpg'' demo_info (demo_unreadable 900)
     = Inl IOError \<and>
   fst (media_to_download demo_libs demo_pipeline demo_request demo_info (demo_unreadable 900))
     = Inr None"
proof -
  have m1: "fs_mtime demo_world (get_filesystem_path ''/data'' ''full/6874.jpg'') = None"
    by code_simp
  have m2: "fs_mtime (demo_unreadable 900) (get_filesystem_path ''/data'' ''full/6874.jpg'')
              \<noteq> None \<and>
            fs_content (demo_unreadable 900) (get_filesystem_path ''/data'' ''full/6874.jpg'')
              = None"
    by code_simp
  have s1: "fst (stat_image demo_libs (store demo_pipeline)
                  (image_key demo_libs (url demo_request)) demo_info demo_world)
              = Inr (Some empty_stat)"
    by code_simp
  have s2: "\<exists>e. fst (stat_image demo_libs (store demo_pipeline)
                  (image_key demo_libs (url demo_request)) demo_info (demo_unreadable 900))
              = Inl e"
    by (rule exI [of _ IOError]) code_simp
  from C5_stat_failures_degrade [of demo_world "''/data''" "''full/6874.jpg''" demo_libs
         demo_info demo_pipeline demo_request] m1 s1
       C5_stat_failures_degrade [of "demo_unreadable 900" "''/data''" "''full/6874.jpg''"
         demo_libs demo_info demo_pipeline demo_request] m2 s2
  show ?thesis by blast
qed

text \<open>
  C5 as the specification words it fails for the file system store: a file whose
  modification time can be read and which cannot be opened makes \<open>stat_image\<close> raise
  \<open>IOError\<close> instead of returning the empty dictionary.
\<close>

theorem C5_counterexample:
  "fs_content (demo_unreadable 900) (get_filesystem_path ''/data'' ''full/6874.jpg'') = None \<and>
   fs_stat_image demo_libs ''/data'' ''full/6874.jpg'' demo_info (demo_unreadable 900)
     = Inl IOError \<and>
   fs_stat_image demo_libs ''/data'' ''full/6874.jpg'' demo_info (demo_unreadable 900)
     \<noteq> Inr empty_stat"
  by code_simp

subsection \<open>Construction\<close>

lemma STORE_SCHEMES_unknown:
  "(map_of STORE_SCHEMES s = None) = (s \<notin> {[], ''file'', ''s3''})"
  by (simp add: STORE_SCHEMES_def)

lemma STORE_SCHEMES_fs:
  "s \<in> {[], ''file''} \<Longrightarrow> map_of STORE_SCHEMES s = Some FSImagesStore_class"
  by (auto simp: STORE_SCHEMES_def)

lemma STORE_SCHEMES_s3: "map_of STORE_SCHEMES ''s3'' = Some S3ImagesStore_class"
  by (simp add: STORE_SCHEMES_def)

lemma FSImagesStore_init_store:
  "fst (FSImagesStore_init uri w) = Inr st \<Longrightarrow> \<exists>d. st = FSImagesStore d"
  by (auto simp: FSImagesStore_init_def Let_def split: prod.splits sum.splits)

lemma S3ImagesStore_init_store:
  "fst (S3ImagesStore_init L S uri w) = Inr st \<Longrightarrow> \<exists>b p sp. st = S3ImagesStore b p sp"
  by (auto simp: S3ImagesStore_init_def Let_def split: if_splits)

text \<open>\<open>_mkdir\<close> without a domain, as the constructor calls it: \<open>os.makedirs\<close> is called
  exactly when the directory is not there.\<close>

lemma mkdir_None:
  "mkdir d PyNone w = (if path_exists w d then (Inr (), w) else makedirs d w)"
proof (cases "path_exists w d")
  case True
  then show ?thesis by (simp add: mkdir_def)
next
  case False
  obtain r w1 where m: "makedirs d w = (r, w1)" by (cases "makedirs d w")
  from makedirs_error [of d w _ w1] m have "r = Inl OSError \<or> r = Inr ()"
    by (cases r) auto
  with False m show ?thesis by (auto simp: mkdir_def)
qed

lemma FSImagesStore_init_cases:
  assumes "FSImagesStore_init uri w = (r, w1)"
  shows "(r = Inl OSError \<or>
          (r = Inr (FSImagesStore (case split_after ''://'' uri of None \<Rightarrow> uri | Some d \<Rightarrow> d)) \<and>
           created_directories w1 = (\<lambda>k. None))) \<and>
         trace w1 =
           trace w @
           (if path_exists w (case split_after ''://'' uri of None \<Rightarrow> uri | Some d \<Rightarrow> d)
            then []
            else [Makedirs (case split_after ''://'' uri of None \<Rightarrow> uri | Some d \<Rightarrow> d)])"
proof -
  let ?d = "case split_after ''://'' uri of None \<Rightarrow> uri | Some d \<Rightarrow> d"
  show ?thesis
  proof (cases "path_exists w ?d")
    case True
    with assms show ?thesis
      by (auto simp: FSImagesStore_init_def mkdir_None)
  next
    case False
    obtain r2 w2 where m: "makedirs ?d w = (r2, w2)" by (cases "makedirs ?d w")
    from grows_fields(3) [OF makedirs_grows [OF m]]
    have t: "trace w2 = trace w @ [Makedirs ?d]" by simp
    from makedirs_error [of ?d w _ w2] m have e: "r2 = Inl OSError \<or> r2 = Inr ()"
      by (cases r2) auto
    from assms False m e t show ?thesis
      by (auto simp: FSImagesStore_init_def mkdir_None)
  qed
qed

text \<open>
  C9. The store is chosen in \<open>__init__\<close>, by one call of \<open>_get_store\<close> with the scheme of
  \<open>IMAGES_STORE\<close>.

  \<^item> A scheme that is not in \<open>STORE_SCHEMES\<close> (not empty, \<open>file\<close> or \<open>s3\<close>) makes the
    constructor raise \<open>KeyError\<close> for that scheme before anything is touched: no pipeline
    object comes back, so no hook can be called on one.
  \<^item> For the schemes empty and \<open>file\<close> the constructor of the file system store runs on
    the URI: \<open>os.makedirs\<close> is called for the base directory (what follows \<open>://\<close>) exactly
    when it is not there, and either that raises \<open>OSError\<close> and no pipeline comes back, or
    the pipeline holds the file system store on that directory, with an empty
    \<open>created_directories\<close>.
  \<^item> For the scheme \<open>s3\<close> the constructor of the S3 store runs on the URI and touches
    nothing: either it raises and no pipeline comes back, or the pipeline holds the S3
    store with the bucket (up to the first \<open>/\<close> after \<open>s3://\<close>), the prefix (what
    follows) and the spider of the settings.
  \<^item> So a pipeline that is constructed holds the file system store exactly for the schemes
    empty and \<open>file\<close>, and the S3 store for \<open>s3\<close>.
\<close>

theorem C9_store_selected_at_construction:
  assumes "IMAGES_STORE S = Some uri" and "uri \<noteq> []"
  shows "(urlparse_scheme L uri \<notin> {[], ''file'', ''s3''} \<longrightarrow>
            ImagesPipeline_init L S w = (Inl (KeyError (urlparse_scheme L uri)), w)) \<and>
         (urlparse_scheme L uri \<in> {[], ''file''} \<longrightarrow>
            get_store L S uri w = FSImagesStore_init uri w \<and>
            trace (snd (ImagesPipeline_init L S w)) =
              trace w @
              (if path_exists w (case split_after ''://'' uri of None \<Rightarrow> uri | Some d \<Rightarrow> d)
               then []
               else [Makedirs (case split_after ''://'' uri of None \<Rightarrow> uri | Some d \<Rightarrow> d)]) \<and>
            (case FSImagesStore_init uri w of
               (Inl e, w1) \<Rightarrow> e = OSError \<and> ImagesPipeline_init L S w = (Inl OSError, w1)
             | (Inr st, w1) \<Rightarrow>
                 st = FSImagesStore (case split_after ''://'' uri of None \<Rightarrow> uri | Some d \<Rightarrow> d) \<and>
                 created_directories w1 = (\<lambda>k. None) \<and>
                 ImagesPipeline_init L S w =
                   (Inr \<lparr>MIN_WIDTH = getint (IMAGES_MIN_WIDTH S) 0,
                         MIN_HEIGHT = getint (IMAGES_MIN_HEIGHT S) 0,
                         EXPIRES = getint (IMAGES_EXPIRES S) 90,
                         THUMBS = IMAGES_THUMBS S,
                         store = st\<rparr>, w1))) \<and>
         (urlparse_scheme L uri = ''s3'' \<longrightarrow>
            get_store L S uri w = S3ImagesStore_init L S uri w \<and>
            snd (ImagesPipeline_init L S w) = w \<and>
            (case S3ImagesStore_init L S uri w of
               (Inl e, w1) \<Rightarrow>
                 (take 5 uri \<noteq> ''s3://'' \<or> CHR ''/'' \<notin> set (drop 5 uri)) \<and>
                 ImagesPipeline_init L S w = (Inl e, w)
             | (Inr st, w1) \<Rightarrow>
                 st = S3ImagesStore (takeWhile (\<lambda>c. c \<noteq> CHR ''/'') (drop 5 uri))
                        (tl (dropWhile (\<lambda>c. c \<noteq> CHR ''/'') (drop 5 uri)))
                        (set_custom_spider L S) \<and>
                 ImagesPipeline_init L S w =
                   (Inr \<lparr>MIN_WIDTH = getint (IMAGES_MIN_WIDTH S) 0,
                         MIN_HEIGHT = getint (IMAGES_MIN_HEIGHT S) 0,
                         EXPIRES = getint (IMAGES_EXPIRES S) 90,
                         THUMBS = IMAGES_THUMBS S,
                         store = st\<rparr>, w))) \<and>
         (fst (ImagesPipeline_init L S w) = Inr P \<longrightarrow>
            (case store P of
               FSImagesStore d \<Rightarrow> urlparse_scheme L uri = [] \<or> urlparse_scheme L uri = ''file''
             | S3ImagesStore b p sp \<Rightarrow> urlparse_scheme L uri = ''s3''))"
proof -
  let ?sch = "urlparse_scheme L uri"
  let ?d = "case split_after ''://'' uri of None \<Rightarrow> uri | Some d \<Rightarrow> d"
  have init: "ImagesPipeline_init L S w =
                (case get_store L S uri w of
                   (Inl e, w1) \<Rightarrow> (Inl e, w1)
                 | (Inr st, w1) \<Rightarrow>
                     (Inr \<lparr>MIN_WIDTH = getint (IMAGES_MIN_WIDTH S) 0,
                           MIN_HEIGHT = getint (IMAGES_MIN_HEIGHT S) 0,
                           EXPIRES = getint (IMAGES_EXPIRES S) 90,
                           THUMBS = IMAGES_THUMBS S,
                           store = st\<rparr>, w1))"
    using assms by (simp add: ImagesPipeline_init_def)
  have c1: "?sch \<notin> {[], ''file'', ''s3''} \<longrightarrow>
            ImagesPipeline_init L S w = (Inl (KeyError ?sch), w)"
  proof
    assume "?sch \<notin> {[], ''file'', ''s3''}"
    then have "map_of STORE_SCHEMES ?sch = None"
      by (simp only: STORE_SCHEMES_unknown not_False_eq_True)
    then show "ImagesPipeline_init L S w = (Inl (KeyError ?sch), w)"
      by (simp add: init get_store_def)
  qed
  have c2: "?sch \<in> {[], ''file''} \<longrightarrow>
            get_store L S uri w = FSImagesStore_init uri w \<and>
            trace (snd (ImagesPipeline_init L S w)) =
              trace w @ (if path_exists w ?d then [] else [Makedirs ?d]) \<and>
            (case FSImagesStore_init uri w of
               (Inl e, w1) \<Rightarrow> e = OSError \<and> ImagesPipeline_init L S w = (Inl OSError, w1)
             | (Inr st, w1) \<Rightarrow>
                 st = FSImagesStore ?d \<and>
                 created_directories w1 = (\<lambda>k. None) \<and>
                 ImagesPipeline_init L S w =
                   (Inr \<lparr>MIN_WIDTH = getint (IMAGES_MIN_WIDTH S) 0,
                         MIN_HEIGHT = getint (IMAGES_MIN_HEIGHT S) 0,
                         EXPIRES = getint (IMAGES_EXPIRES S) 90,
                         THUMBS = IMAGES_THUMBS S,
                         store = st\<rparr>, w1))"
  proof
    assume "?sch \<in> {[], ''file''}"
    then have g: "get_store L S uri w = FSImagesStore_init uri w"
      by (simp add: get_store_def STORE_SCHEMES_fs)
    obtain r w1 where f: "FSImagesStore_init uri w = (r, w1)"
      by (cases "FSImagesStore_init uri w")
    note k = FSImagesStore_init_cases [OF f]
    from k have "r = Inl OSError \<or> r = Inr (FSImagesStore ?d)" by blast
    then have i: "snd (ImagesPipeline_init L S w) = w1"
      by (auto simp: init g f)
    from k have t: "trace w1 = trace w @ (if path_exists w ?d then [] else [Makedirs ?d])"
      by blast
    from k have "case FSImagesStore_init uri w of
               (Inl e, w1) \<Rightarrow> e = OSError \<and> ImagesPipeline_init L S w = (Inl OSError, w1)
             | (Inr st, w1) \<Rightarrow>
                 st = FSImagesStore ?d \<and>
                 created_directories w1 = (\<lambda>k. None) \<and>
                 ImagesPipeline_init L S w =
                   (Inr \<lparr>MIN_WIDTH = getint (IMAGES_MIN_WIDTH S) 0,
                         MIN_HEIGHT = getint (IMAGES_MIN_HEIGHT S) 0,
                         EXPIRES = getint (IMAGES_EXPIRES S) 90,
                         THUMBS = IMAGES_THUMBS S,
                         store = st\<rparr>, w1)"
      by (cases r) (auto simp: init g f)
    with g i t show "get_store L S uri w = FSImagesStore_init uri w \<and>
            trace (snd (ImagesPipeline_init L S w)) =
              trace w @ (if path_exists w ?d then [] else [Makedirs ?d]) \<and>
            (case FSImagesStore_init uri w of
               (Inl e, w1) \<Rightarrow> e = OSError \<and> ImagesPipeline_init L S w = (Inl OSError, w1)
             | (Inr st, w1) \<Rightarrow>
                 st = FSImagesStore ?d \<and>
                 created_directories w1 = (\<lambda>k. None) \<and>
                 ImagesPipeline_init L S w =
                   (Inr \<lparr>MIN_WIDTH = getint (IMAGES_MIN_WIDTH S) 0,
                         MIN_HEIGHT = getint (IMAGES_MIN_HEIGHT S) 0,
                         EXPIRES = getint (IMAGES_EXPIRES S) 90,
                         THUMBS = IMAGES_THUMBS S,
                         store = st\<rparr>, w1))"
      by simp
  qed
  have c3: "?sch = ''s3'' \<longrightarrow>
            get_store L S uri w = S3ImagesStore_init L S uri w \<and>
            snd (ImagesPipeline_init L S w) = w \<and>
            (case S3ImagesStore_init L S uri w of
               (Inl e, w1) \<Rightarrow>
                 (take 5 uri \<noteq> ''s3://'' \<or> CHR ''/'' \<notin> set (drop 5 uri)) \<and>
                 ImagesPipeline_init L S w = (Inl e, w)
             | (Inr st, w1) \<Rightarrow>
                 st = S3ImagesStore (takeWhile (\<lambda>c. c \<noteq> CHR ''/'') (drop 5 uri))
                        (tl (dropWhile (\<lambda>c. c \<noteq> CHR ''/'') (drop 5 uri)))
                        (set_custom_spider L S) \<and>
                 ImagesPipeline_init L S w =
                   (Inr \<lparr>MIN_WIDTH = getint (IMAGES_MIN_WIDTH S) 0,
                         MIN_HEIGHT = getint (IMAGES_MIN_HEIGHT S) 0,
                         EXPIRES = getint (IMAGES_EXPIRES S) 90,
                         THUMBS = IMAGES_THUMBS S,
                         store = st\<rparr>, w))"
  proof
    assume "?sch = ''s3''"
    then have g: "get_store L S uri w = S3ImagesStore_init L S uri w"
      by (simp add: get_store_def STORE_SCHEMES_s3)
    show "get_store L S uri w = S3ImagesStore_init L S uri w \<and>
            snd (ImagesPipeline_init L S w) = w \<and>
            (case S3ImagesStore_init L S uri w of
               (Inl e, w1) \<Rightarrow>
                 (take 5 uri \<noteq> ''s3://'' \<or> CHR ''/'' \<notin> set (drop 5 uri)) \<and>
                 ImagesPipeline_init L S w = (Inl e, w)
             | (Inr st, w1) \<Rightarrow>
                 st = S3ImagesStore (takeWhile (\<lambda>c. c \<noteq> CHR ''/'') (drop 5 uri))
                        (tl (dropWhile (\<lambda>c. c \<noteq> CHR ''/'') (drop 5 uri)))
                        (set_custom_spider L S) \<and>
                 ImagesPipeline_init L S w =
                   (Inr \<lparr>MIN_WIDTH = getint (IMAGES_MIN_WIDTH S) 0,
                         MIN_HEIGHT = getint (IMAGES_MIN_HEIGHT S) 0,
                         EXPIRES = getint (IMAGES_EXPIRES S) 90,
                         THUMBS = IMAGES_THUMBS S,
                         store = st\<rparr>, w))"
      unfolding init g
      by (simp add: S3ImagesStore_init_def Let_def)
  qed
  have c4: "fst (ImagesPipeline_init L S w) = Inr P \<longrightarrow>
            (case store P of
               FSImagesStore d \<Rightarrow> ?sch = [] \<or> ?sch = ''file''
             | S3ImagesStore b p sp \<Rightarrow> ?sch = ''s3'')"
  proof
    assume ok: "fst (ImagesPipeline_init L S w) = Inr P"
    then have g: "fst (get_store L S uri w) = Inr (store P)"
      by (auto simp: init split: prod.splits sum.splits)
    show "case store P of
            FSImagesStore d \<Rightarrow> ?sch = [] \<or> ?sch = ''file''
          | S3ImagesStore b p sp \<Rightarrow> ?sch = ''s3''"
    proof (cases "map_of STORE_SCHEMES ?sch")
      case None
      with g show ?thesis by (simp add: get_store_def)
    next
      case (Some cls)
      show ?thesis
      proof (cases cls)
        case FSImagesStore_class
        with Some g have "fst (FSImagesStore_init uri w) = Inr (store P)"
          by (simp add: get_store_def)
        then obtain d where d: "store P = FSImagesStore d"
          using FSImagesStore_init_store by blast
        from Some FSImagesStore_class
        have "?sch = [] \<or> ?sch = ''file''"
          by (auto simp: STORE_SCHEMES_def split: if_splits)
        with d show ?thesis by simp
      next
        case S3ImagesStore_class
        with Some g have "fst (S3ImagesStore_init L S uri w) = Inr (store P)"
          by (simp add: get_store_def)
        then obtain b p sp where d: "store P = S3ImagesStore b p sp"
          using S3ImagesStore_init_store by blast
        from Some S3ImagesStore_class have "?sch = ''s3''"
          by (auto simp: STORE_SCHEMES_def split: if_splits)
        with d show ?thesis by simp
      qed
    qed
  qed
  from c1 c2 c3 c4 show ?thesis by (intro conjI)
qed

theorem C9_store_selected_at_construction_witness:
  "IMAGES_STORE (demo_settings ''ftp://host/images'') = Some ''ftp://host/images'' \<and>
   urlparse_scheme demo_libs ''ftp://host/images'' = ''ftp'' \<and>
   fst (ImagesPipeline_init demo_libs (demo_settings ''ftp://host/images'') demo_world)
     = Inl (KeyError ''ftp'') \<and>
   trace (snd (ImagesPipeline_init demo_libs (demo_settings ''ftp://host/images'') demo_world))
     = [] \<and>
   urlparse_scheme demo_libs ''file:///data/images'' = ''file'' \<and>
   fst (FSImagesStore_init ''file:///data/images'' demo_world)
     = Inr (FSImagesStore ''/data/images'') \<and>
   store (projr (fst (ImagesPipeline_init demo_libs (demo_settings ''file:///data/images'')
                        demo_world)))
     = FSImagesStore ''/data/images'' \<and>
   trace (snd (ImagesPipeline_init demo_libs (demo_settings ''file:///data/images'')
                 demo_world))
     = [Makedirs ''/data/images''] \<and>
   urlparse_scheme demo_libs ''s3://bucket/pre/'' = ''s3'' \<and>
   fst (S3ImagesStore_init demo_libs (demo_settings ''s3://bucket/pre/'') ''s3://bucket/pre/''
          demo_world)
     = Inr (S3ImagesStore ''bucket'' ''pre/'' None) \<and>
   store (projr (fst (ImagesPipeline_init demo_libs (demo_settings ''s3://bucket/pre/'')
                        demo_world)))
     = S3ImagesStore ''bucket'' ''pre/'' None \<and>
   store (projr (fst (ImagesPipeline_init demo_libs (demo_settings ''/data/images'')
                        demo_world)))
     = FSImagesStore ''/data/images''"
proof -
  have s: "IMAGES_STORE (demo_settings u) = Some u" for u
    by (simp add: demo_settings_def)
  have u1: "urlparse_scheme demo_libs ''ftp://host/images'' = ''ftp''"
    by code_simp
  have u2: "urlparse_scheme demo_libs ''file:///data/images'' = ''file''"
    by code_simp
  have u3: "urlparse_scheme demo_libs ''s3://bucket/pre/'' = ''s3''"
    by code_simp
  have t: "trace demo_world = []" by (simp add: demo_world_def)
  have p: "\<not> path_exists demo_world ''/data/images''" by code_simp
  have d: "(case split_after ''://'' ''file:///data/images'' of
              None \<Rightarrow> ''file:///data/images'' | Some d \<Rightarrow> d) = ''/data/images''"
    by code_simp
  have f2: "fst (FSImagesStore_init ''file:///data/images'' demo_world)
              = Inr (FSImagesStore ''/data/images'')"
    by code_simp
  have f3: "fst (S3ImagesStore_init demo_libs (demo_settings ''s3://bucket/pre/'')
                   ''s3://bucket/pre/'' demo_world)
              = Inr (S3ImagesStore ''bucket'' ''pre/'' None)"
    by code_simp
  have f4: "store (projr (fst (ImagesPipeline_init demo_libs (demo_settings ''/data/images'')
                                 demo_world)))
              = FSImagesStore ''/data/images''"
    by code_simp
  have n: "''ftp://host/images'' \<noteq> []" "''file:///data/images'' \<noteq> []"
    "''s3://bucket/pre/'' \<noteq> []"
    by simp_all
  have a1: "fst (ImagesPipeline_init demo_libs (demo_settings ''ftp://host/images'')
                   demo_world) = Inl (KeyError ''ftp'')"
    and a2: "trace (snd (ImagesPipeline_init demo_libs (demo_settings ''ftp://host/images'')
                           demo_world)) = []"
    using C9_store_selected_at_construction [OF s n(1), of demo_libs demo_world] u1 t
    by simp_all
  obtain w1 where f2': "FSImagesStore_init ''file:///data/images'' demo_world
                          = (Inr (FSImagesStore ''/data/images''), w1)"
    using f2 by (cases "FSImagesStore_init ''file:///data/images'' demo_world") simp
  have b1: "store (projr (fst (ImagesPipeline_init demo_libs
                     (demo_settings ''file:///data/images'') demo_world)))
              = FSImagesStore ''/data/images''"
    using C9_store_selected_at_construction [OF s n(2), of demo_libs demo_world] u2 d f2'
    by simp
  have "trace (snd (ImagesPipeline_init demo_libs (demo_settings ''file:///data/images'')
                       demo_world))
          = trace demo_world @
            (if path_exists demo_world ''/data/images'' then []
             else [Makedirs ''/data/images''])"
    using C9_store_selected_at_construction [OF s n(2), of demo_libs demo_world] u2 d
    by simp
  with t p
  have b2: "trace (snd (ImagesPipeline_init demo_libs (demo_settings ''file:///data/images'')
                           demo_world)) = [Makedirs ''/data/images'']"
    by simp
  obtain w2 where f3': "S3ImagesStore_init demo_libs (demo_settings ''s3://bucket/pre/'')
                          ''s3://bucket/pre/'' demo_world
                          = (Inr (S3ImagesStore ''bucket'' ''pre/'' None), w2)"
    using f3
    by (cases "S3ImagesStore_init demo_libs (demo_settings ''s3://bucket/pre/'')
                 ''s3://bucket/pre/'' demo_world") simp
  have c1: "store (projr (fst (ImagesPipeline_init demo_libs
                     (demo_settings ''s3://bucket/pre/'') demo_world)))
              = S3ImagesStore ''bucket'' ''pre/'' None"
    using C9_store_selected_at_construction [OF s n(3), of demo_libs demo_world] u3 f3'
    by simp
  from s [of "''ftp://host/images''"] u1 a1 a2 u2 f2 b1 b2 u3 f3 c1 f4
  show ?thesis by (intro conjI)
qed

subsection \<open>Processing a response\<close>

lemma inc_stats_fields:
  "fs_content (inc_stats d s w) = fs_content w"
  "fs_mtime (inc_stats d s w) = fs_mtime w"
  "fs_exists (inc_stats d s w) = fs_exists w"
  "created_directories (inc_stats d s w) = created_directories w"
  "trace (inc_stats d s w) = trace w"
  "clock (inc_stats d s w) = clock w"
  by (simp_all add: inc_stats_def inc_value_def)

text \<open>
  C6. When the decoded image is narrower than \<open>MIN_WIDTH\<close> or lower than
  \<open>MIN_HEIGHT\<close>, \<open>get_images\<close> raises the too-small error before it yields anything,
  so \<open>image_downloaded\<close> fails with that error and leaves the world as it was: no call
  of \<open>persist_image\<close>, for the primary image or a thumbnail, no directory, no file. In
  \<open>media_downloaded\<close> only the stats counters have moved by then.
\<close>

theorem C6_too_small_rejected_before_persist:
  assumes "Image_open L (body resp) = Some orig_image"
    and "img_size L orig_image = (width, height)"
    and "width < MIN_WIDTH P \<or> height < MIN_HEIGHT P"
  shows "get_images L P resp req
           = [Inl (ImageException (Too_small width height (MIN_WIDTH P) (MIN_HEIGHT P)))] \<and>
         image_downloaded L P resp req info w
           = (Inl (ImageException (Too_small width height (MIN_WIDTH P) (MIN_HEIGHT P))), w) \<and>
         (status resp = 200 \<and> body resp \<noteq> [] \<longrightarrow>
            fst (media_downloaded L P resp req info w)
              = Inl (ImageException (Too_small width height (MIN_WIDTH P) (MIN_HEIGHT P))) \<and>
            trace (snd (media_downloaded L P resp req info w)) = trace w \<and>
            fs_content (snd (media_downloaded L P resp req info w)) = fs_content w \<and>
            fs_mtime (snd (media_downloaded L P resp req info w)) = fs_mtime w \<and>
            fs_exists (snd (media_downloaded L P resp req info w)) = fs_exists w \<and>
            created_directories (snd (media_downloaded L P resp req info w))
              = created_directories w)"
proof -
  let ?e = "ImageException (Too_small width height (MIN_WIDTH P) (MIN_HEIGHT P))"
  have g: "get_images L P resp req = [Inl ?e]"
    using assms by (auto simp: get_images_def Let_def)
  have i: "image_downloaded L P resp req info w' = (Inl ?e, w')" for w'
    by (simp add: image_downloaded_def g)
  have m: "status resp = 200 \<and> body resp \<noteq> [] \<longrightarrow>
             media_downloaded L P resp req info w
               = (Inl ?e, inc_stats (domain info)
                            (if ''cached'' \<in> set (flags resp) then ''cached''
                             else ''downloaded'') w)"
    by (simp add: media_downloaded_def Let_def i)
  show ?thesis
  proof (intro conjI impI)
    show "get_images L P resp req = [Inl ?e]" by (rule g)
    show "image_downloaded L P resp req info w = (Inl ?e, w)" by (rule i)
  next
    assume a: "status resp = 200 \<and> body resp \<noteq> []"
    with m have eq: "media_downloaded L P resp req info w
               = (Inl ?e, inc_stats (domain info)
                            (if ''cached'' \<in> set (flags resp) then ''cached''
                             else ''downloaded'') w)"
      by (rule mp)
    show "fst (media_downloaded L P resp req info w) = Inl ?e"
      by (simp only: eq fst_conv)
    show "trace (snd (media_downloaded L P resp req info w)) = trace w"
      by (simp only: eq snd_conv inc_stats_fields)
    show "fs_content (snd (media_downloaded L P resp req info w)) = fs_content w"
      by (simp only: eq snd_conv inc_stats_fields)
    show "fs_mtime (snd (media_downloaded L P resp req info w)) = fs_mtime w"
      by (simp only: eq snd_conv inc_stats_fields)
    show "fs_exists (snd (media_downloaded L P resp req info w)) = fs_exists w"
      by (simp only: eq snd_conv inc_stats_fields)
    show "created_directories (snd (media_downloaded L P resp req info w))
            = created_directories w"
      by (simp only: eq snd_conv inc_stats_fields)
  qed
qed

theorem C6_too_small_rejected_before_persist_witness:
  "Image_open demo_libs (body (demo_response 200 ''22'')) = Some (50, 50, ''RGB'') \<and>
   img_size demo_libs (50, 50, ''RGB'') = (50, 50) \<and>
   50 < MIN_WIDTH demo_pipeline \<and>
   fst (media_downloaded demo_libs demo_pipeline (demo_response 200 ''22'') demo_request
          demo_info demo_world)
     = Inl (ImageException (Too_small 50 50 100 100)) \<and>
   trace (snd (media_downloaded demo_libs demo_pipeline (demo_response 200 ''22'')
                 demo_request demo_info demo_world)) = []"
proof -
  have o: "Image_open demo_libs (body (demo_response 200 ''22'')) = Some (50, 50, ''RGB'')"
    by code_simp
  have s: "img_size demo_libs (50, 50, ''RGB'') = (50, 50)"
    by (simp add: demo_libs_def)
  have l: "50 < MIN_WIDTH demo_pipeline \<or> 50 < MIN_HEIGHT demo_pipeline"
    by (simp add: demo_pipeline_def)
  have r: "status (demo_response 200 ''22'') = 200 \<and> body (demo_response 200 ''22'') \<noteq> []"
    by (simp add: demo_response_def)
  have p: "MIN_WIDTH demo_pipeline = 100" "MIN_HEIGHT demo_pipeline = 100"
    by (simp_all add: demo_pipeline_def)
  have t: "trace demo_world = []" by (simp add: demo_world_def)
  from C6_too_small_rejected_before_persist [OF o s l, of demo_request demo_info demo_world]
    r
  have "fst (media_downloaded demo_libs demo_pipeline (demo_response 200 ''22'') demo_request
               demo_info demo_world)
          = Inl (ImageException (Too_small 50 50 (MIN_WIDTH demo_pipeline)
                                   (MIN_HEIGHT demo_pipeline)))"
    and "trace (snd (media_downloaded demo_libs demo_pipeline (demo_response 200 ''22'')
                       demo_request demo_info demo_world)) = trace demo_world"
    by blast+
  with o s p t show ?thesis by simp
qed


lemma fs_persist_image_error:
  "fs_persist_image L d key im buf info w = (Inl e, w') \<Longrightarrow> e = OSError \<or> e = IOError"
  by (auto simp: fs_persist_image_def Let_def split: prod.splits sum.splits
        dest: mkdir_error image_save_error)

lemma persist_image_error:
  assumes "persist_image L st key im buf info w = (Inl e, w')"
  shows "e = OSError \<or> e = IOError"
proof (cases st)
  case (FSImagesStore d)
  with assms show ?thesis
    by (simp add: persist_image_def fs_persist_image_error)
next
  case (S3ImagesStore b p sp)
  with assms show ?thesis
    by (simp add: persist_image_def s3_persist_image_def Let_def split: prod.splits)
qed

lemma convert_image_error:
  "convert_image L im sz = Inl e \<Longrightarrow> e = ImageException Cannot_process"
  by (auto simp: convert_image_def Let_def split: option.splits)

lemma get_images_error:
  assumes "Inl e \<in> set (get_images L P resp req)"
  shows "e = IOError \<or> e = ImageException Cannot_process \<or>
         (\<exists>a b c d. e = ImageException (Too_small a b c d))"
  using assms
  by (auto simp: get_images_def Let_def
        split: option.splits prod.splits if_splits sum.splits
        dest: convert_image_error)

lemma persist_loop_error:
  "fst (persist_loop L st info items fb w) = Inl e \<Longrightarrow>
     Inl e \<in> set items \<or> e = OSError \<or> e = IOError"
proof (induction L st info items fb w rule: persist_loop.induct)
  case (1 L st info first_buf w)
  then show ?case by simp
next
  case (2 L st info e' items first_buf w)
  then show ?case by simp
next
  case (3 L st info key im buf items first_buf w)
  obtain o1 w1 where p: "persist_image L st key im buf info w = (o1, w1)"
    by (cases "persist_image L st key im buf info w")
  show ?case
  proof (cases o1)
    case (Inl e')
    with p "3.prems" have "e' = e" by simp
    with p Inl persist_image_error [of L st key im buf info w e w1] show ?thesis by simp
  next
    case (Inr u)
    with p "3.prems"
    have "fst (persist_loop L st info items
                 (if first_buf = None then Some buf else first_buf) w1) = Inl e"
      by simp
    with "3.IH" [OF p [symmetric] Inr] show ?thesis by auto
  qed
qed

lemma image_downloaded_error:
  assumes "fst (image_downloaded L P resp req info w) = Inl e"
  shows "e \<noteq> ImageException Http_error \<and> e \<noteq> ImageException Empty_content"
proof -
  obtain o1 w1 where l: "persist_loop L (store P) info (get_images L P resp req) None w = (o1, w1)"
    by (cases "persist_loop L (store P) info (get_images L P resp req) None w")
  show ?thesis
  proof (cases o1)
    case (Inl e')
    with l assms have "e' = e" by (simp add: image_downloaded_def)
    with l Inl have "fst (persist_loop L (store P) info (get_images L P resp req) None w) = Inl e"
      by simp
    from persist_loop_error [OF this] get_images_error [of e L P resp req]
    show ?thesis by auto
  next
    case (Inr fb)
    with l assms have "e = AttributeError"
      by (cases fb) (simp_all add: image_downloaded_def)
    then show ?thesis by simp
  qed
qed

text \<open>
  C7, as the code has it. \<open>media_downloaded\<close> fails with one of its two download errors
  (http-error, empty-content) exactly when the status of the response is not 200 or its
  body is empty; it then returns no result and leaves the world untouched (nothing is
  persisted, nothing is requested again). For every response with status 200 and a body
  that is not empty it counts the image in the stats and goes on to
  \<open>image_downloaded\<close>, whose outcome is the outcome of the hook.
\<close>

theorem C7_download_error:
  "((fst (media_downloaded L P resp req info w) = Inl (ImageException Http_error) \<or>
     fst (media_downloaded L P resp req info w) = Inl (ImageException Empty_content))
      = (status resp \<noteq> 200 \<or> body resp = [])) \<and>
   (status resp \<noteq> 200 \<longrightarrow>
      media_downloaded L P resp req info w = (Inl (ImageException Http_error), w)) \<and>
   (status resp = 200 \<and> body resp = [] \<longrightarrow>
      media_downloaded L P resp req info w = (Inl (ImageException Empty_content), w)) \<and>
   (status resp = 200 \<and> body resp \<noteq> [] \<longrightarrow>
      media_downloaded L P resp req info w
        = (case image_downloaded L P resp req info
                 (inc_stats (domain info)
                    (if ''cached'' \<in> set (flags resp) then ''cached'' else ''downloaded'') w) of
             (Inl ex, w2) \<Rightarrow> (Inl ex, w2)
           | (Inr c, w2) \<Rightarrow>
               (Inr \<lparr>r_url = url req, r_path = image_key L (url req), r_checksum = Some c\<rparr>,
                w2)))"
proof -
  let ?w1 = "inc_stats (domain info)
               (if ''cached'' \<in> set (flags resp) then ''cached'' else ''downloaded'') w"
  have a: "status resp \<noteq> 200 \<longrightarrow>
             media_downloaded L P resp req info w = (Inl (ImageException Http_error), w)"
    by (simp add: media_downloaded_def)
  have b: "status resp = 200 \<and> body resp = [] \<longrightarrow>
             media_downloaded L P resp req info w = (Inl (ImageException Empty_content), w)"
    by (simp add: media_downloaded_def)
  have c: "status resp = 200 \<and> body resp \<noteq> [] \<longrightarrow>
      media_downloaded L P resp req info w
        = (case image_downloaded L P resp req info ?w1 of
             (Inl ex, w2) \<Rightarrow> (Inl ex, w2)
           | (Inr c, w2) \<Rightarrow>
               (Inr \<lparr>r_url = url req, r_path = image_key L (url req), r_checksum = Some c\<rparr>,
                w2))"
    by (simp add: media_downloaded_def Let_def)
  have d: "fst (media_downloaded L P resp req info w) \<noteq> Inl (ImageException Http_error) \<and>
           fst (media_downloaded L P resp req info w) \<noteq> Inl (ImageException Empty_content)"
    if ok: "status resp = 200 \<and> body resp \<noteq> []"
  proof (cases "image_downloaded L P resp req info ?w1")
    case (Pair o1 w2)
    show ?thesis
    proof (cases o1)
      case (Inl ex)
      with Pair have "fst (image_downloaded L P resp req info ?w1) = Inl ex" by simp
      from image_downloaded_error [OF this] c ok Pair Inl show ?thesis by simp
    next
      case (Inr x)
      with c ok Pair show ?thesis by simp
    qed
  qed
  have e: "(fst (media_downloaded L P resp req info w) = Inl (ImageException Http_error) \<or>
            fst (media_downloaded L P resp req info w) = Inl (ImageException Empty_content))
             = (status resp \<noteq> 200 \<or> body resp = [])"
  proof (cases "status resp = 200 \<and> body resp \<noteq> []")
    case True
    with d show ?thesis by simp
  next
    case False
    with a b show ?thesis by (cases "status resp = 200") simp_all
  qed
  from e a b c show ?thesis by (intro conjI)
qed

theorem C7_download_error_witness:
  "media_downloaded demo_libs demo_pipeline (demo_response 404 ''dd'') demo_request demo_info
     demo_world = (Inl (ImageException Http_error), demo_world) \<and>
   media_downloaded demo_libs demo_pipeline (demo_response 200 []) demo_request demo_info
     demo_world = (Inl (ImageException Empty_content), demo_world) \<and>
   fst (media_downloaded demo_libs demo_pipeline (demo_response 200 ''dd'') demo_request
          demo_info demo_world)
     = Inr \<lparr>r_url = ''http://example.com/a.jpg'', r_path = ''full/6874.jpg'',
             r_checksum = Some ''4a50''\<rparr>"
proof -
  have s1: "status (demo_response 404 ''dd'') \<noteq> 200"
    by (simp add: demo_response_def)
  have s2: "status (demo_response 200 []) = 200 \<and> body (demo_response 200 []) = []"
    by (simp add: demo_response_def)
  have s3: "fst (media_downloaded demo_libs demo_pipeline (demo_response 200 ''dd'')
                   demo_request demo_info demo_world)
     = Inr \<lparr>r_url = ''http://example.com/a.jpg'', r_path = ''full/6874.jpg'',
             r_checksum = Some ''4a50''\<rparr>"
    by code_simp
  from C7_download_error [of demo_libs demo_pipeline "demo_response 404 ''dd''" demo_request
         demo_info demo_world] s1
       C7_download_error [of demo_libs demo_pipeline "demo_response 200 []" demo_request
         demo_info demo_world] s2 s3
  show ?thesis by blast
qed

text \<open>
  C7 as the specification words it (a download error for "non-2xx" responses) fails at a
  response that reports success with a status other than 200: status 203 with a body is
  refused with the http-error.
\<close>

theorem C7_counterexample:
  "200 \<le> status (demo_response 203 ''dd'') \<and> status (demo_response 203 ''dd'') < 300 \<and>
   body (demo_response 203 ''dd'') \<noteq> [] \<and>
   fst (media_downloaded demo_libs demo_pipeline (demo_response 203 ''dd'') demo_request
          demo_info demo_world) = Inl (ImageException Http_error)"
  by (simp add: media_downloaded_def demo_response_def)

subsection \<open>The directory cache of the file system store\<close>

lemma makedirs_cache:
  "makedirs d w = (r, w') \<Longrightarrow> created_directories w' = created_directories w"
  by (drule makedirs_grows, drule grows_fields(4)) simp

lemma mkdir_seen:
  assumes "truthy k" and "mkdir d k w = (Inr u, w1)"
  shows "\<exists>s. created_directories w1 k = Some s \<and> d \<in> s"
  using assms
  by (auto simp: mkdir_def Let_def
        split: if_splits prod.splits sum.splits option.splits dest: makedirs_cache)

text \<open>Within one session a directory is looked at once: after a call of \<open>_mkdir\<close> that
  went through, the same call again changes nothing, \<open>os.makedirs\<close> is not reached.\<close>

lemma mkdir_memo:
  assumes "truthy k" and "mkdir d k w = (Inr u, w1)"
  shows "mkdir d k w1 = (Inr (), w1)"
proof -
  from mkdir_seen [OF assms] obtain s where s: "created_directories w1 k = Some s" "d \<in> s"
    by blast
  have "(created_directories w1)(k \<mapsto> s) = created_directories w1"
    using s(1) by (rule map_upd_triv)
  with assms(1) s show ?thesis
    by (simp add: mkdir_def Let_def)
qed

lemma domain_closed_same: "created_directories (domain_closed k w) k = None"
  by (simp add: domain_closed_def)

lemma domain_closed_other:
  "k' \<noteq> k \<Longrightarrow> created_directories (domain_closed k w) k' = created_directories w k'"
  by (simp add: domain_closed_def)

lemma mkdir_known:
  assumes "truthy k" and "created_directories w k = Some s" and "dn \<in> s"
  shows "mkdir dn k w = (Inr (), w)"
proof -
  have "(created_directories w)(k \<mapsto> s) = created_directories w"
    using assms(2) by (rule map_upd_triv)
  with assms show ?thesis by (simp add: mkdir_def Let_def)
qed

lemma image_save_cache:
  "image_save L im p w = (r, w') \<Longrightarrow> created_directories w' = created_directories w"
  by (rule image_save_tree(7))

text \<open>Once an image was stored for a session, storing another one into the same
  directory for that session makes no directory: the trace grows by the call and the
  file write only.\<close>

lemma fs_persist_image_again:
  assumes first: "fs_persist_image L d key im buf info w = (Inr u, w1)"
    and same: "os_path_dirname (get_filesystem_path d key')
                 = os_path_dirname (get_filesystem_path d key)"
    and again: "fs_persist_image L d key' im' buf' info w1 = (r, w2)"
  shows "\<exists>evs. trace w2 = trace w1 @ Persist key' # evs \<and>
               (\<forall>dn. Makedirs dn \<notin> set evs)"
proof -
  let ?dn = "os_path_dirname (get_filesystem_path d key)"
  obtain o1 wa where m: "mkdir ?dn (PyInfo info) (w\<lparr>trace := trace w @ [Persist key]\<rparr>) = (o1, wa)"
    by (cases "mkdir ?dn (PyInfo info) (w\<lparr>trace := trace w @ [Persist key]\<rparr>)")
  from first m obtain u' where o1: "o1 = Inr u'"
    and sv: "image_save L im (get_filesystem_path d key) wa = (Inr u, w1)"
    by (cases o1) (simp_all add: fs_persist_image_def Let_def)
  from mkdir_seen [of "PyInfo info" ?dn _ u' wa] m o1
  obtain s where "created_directories wa (PyInfo info) = Some s" "?dn \<in> s"
    by auto
  with image_save_cache [OF sv]
  have s: "created_directories w1 (PyInfo info) = Some s" "?dn \<in> s"
    by simp_all
  let ?wb = "w1\<lparr>trace := trace w1 @ [Persist key']\<rparr>"
  have "mkdir ?dn (PyInfo info) ?wb = (Inr (), ?wb)"
    by (rule mkdir_known [where s = s]) (simp_all add: s)
  with again same have "image_save L im' (get_filesystem_path d key') ?wb = (r, w2)"
    by (simp add: fs_persist_image_def Let_def)
  then have "trace w2 = trace w1 @ [Persist key'] \<or>
             (\<exists>b. trace w2 = trace w1 @ [Persist key', Saved (get_filesystem_path d key') b])"
    using image_save_shape [of L im' "get_filesystem_path d key'" ?wb r w2] by auto
  then show ?thesis by auto
qed


text \<open>
  C8, where the code falls short of it. \<open>persist_image\<close> passes the \<open>info\<close> object to
  \<open>_mkdir\<close> as its \<open>domain\<close>, so the set of made directories is stored under the
  object; \<open>domain_closed\<close> pops the entry of the domain it is told, \<open>info.domain\<close>. After
  one image is stored for \<open>demo_info\<close> and its domain is closed, the entry is still there.
\<close>

theorem C8_cache_entry_survives_domain_closed:
  "created_directories
     (snd (fs_persist_image demo_libs ''/data'' ''full/6874.jpg'' (100, 100, ''RGB'') ''JPEGL''
             demo_info demo_world))
     (PyInfo demo_info) = Some {''/data/full''} \<and>
   created_directories
     (domain_closed (PyStr (domain demo_info))
        (snd (fs_persist_image demo_libs ''/data'' ''full/6874.jpg'' (100, 100, ''RGB'')
                ''JPEGL'' demo_info demo_world)))
     (PyInfo demo_info) = Some {''/data/full''}"
proof -
  have p: "created_directories
     (snd (fs_persist_image demo_libs ''/data'' ''full/6874.jpg'' (100, 100, ''RGB'') ''JPEGL''
             demo_info demo_world))
     (PyInfo demo_info) = Some {''/data/full''}"
    by code_simp
  have "PyInfo demo_info \<noteq> PyStr (domain demo_info)" by simp
  from domain_closed_other [OF this] p show ?thesis by simp
qed

subsection \<open>Where the keys lead\<close>

lemma components_last:
  assumes "ks \<noteq> []" and "last ks \<noteq> []"
  shows "rev (dropWhile (\<lambda>c. c = []) (rev (X @ ks))) = X @ ks"
proof -
  from assms(1) obtain ys y where ks: "ks = ys @ [y]"
    by (cases ks rule: rev_cases) auto
  with assms(2) have "dropWhile (\<lambda>c. c = []) (rev (X @ ks)) = rev (X @ ks)"
    by simp
  then show ?thesis by simp
qed

text \<open>The path of a key in the store: it starts where the base directory starts, goes
  through the names of the base directory and then through the names of the key.\<close>

lemma resolve_key:
  "\<exists>A. \<forall>k w. take 1 k \<noteq> ''/'' \<longrightarrow> last (split_path k) \<noteq> [] \<longrightarrow>
          resolve w (get_filesystem_path d k)
            = walk w (if take 1 d = ''/'' then [] else cwd w) (A @ split_path k)"
proof -
  have ne: "k \<noteq> []" if "last (split_path k) \<noteq> []" for k
    using that by auto
  consider (empty) "d = []" | (slash) "d \<noteq> []" "last d = CHR ''/''"
    | (plain) "d \<noteq> []" "last d \<noteq> CHR ''/''"
    by blast
  then show ?thesis
  proof cases
    case empty
    have "resolve w (get_filesystem_path d k)
            = walk w (if take 1 d = ''/'' then [] else cwd w) ([] @ split_path k)"
      if "take 1 k \<noteq> ''/''" "last (split_path k) \<noteq> []" for k w
      using that ne [OF that(2)] empty
        components_last [of "split_path k" "[]"] split_path_nonempty [of k]
      by (simp add: get_filesystem_path_def os_path_join_def resolve_def components_def)
    then show ?thesis by blast
  next
    case slash
    then obtain bd where d: "d = bd @ [CHR ''/'']"
      by (cases d rule: rev_cases) auto
    have "resolve w (get_filesystem_path d k)
            = walk w (if take 1 d = ''/'' then [] else cwd w)
                (split_path bd @ split_path k)"
      if "take 1 k \<noteq> ''/''" "last (split_path k) \<noteq> []" for k w
    proof -
      have p: "get_filesystem_path d k = d @ k"
        using that slash by (simp add: get_filesystem_path_def os_path_join_def)
      have "d @ k = bd @ CHR ''/'' # k"
        using d by simp
      then have s: "split_path (d @ k) = split_path bd @ split_path k"
        by (simp only: split_path_slash)
      have t: "take 1 (d @ k) = take 1 d"
        using slash(1) by (cases d) simp_all
      show ?thesis
        unfolding p resolve_def components_def s t
        using slash(1) components_last [OF split_path_nonempty that(2)]
        by simp
    qed
    then show ?thesis by blast
  next
    case plain
    have "resolve w (get_filesystem_path d k)
            = walk w (if take 1 d = ''/'' then [] else cwd w) (split_path d @ split_path k)"
      if "take 1 k \<noteq> ''/''" "last (split_path k) \<noteq> []" for k w
    proof -
      have p: "get_filesystem_path d k = d @ CHR ''/'' # k"
        using that plain by (simp add: get_filesystem_path_def os_path_join_def)
      have s: "split_path (d @ CHR ''/'' # k) = split_path d @ split_path k"
        by (simp add: split_path_slash)
      have t: "take 1 (d @ CHR ''/'' # k) = take 1 d"
        using plain(1) by (cases d) simp_all
      show ?thesis
        unfolding p resolve_def components_def s t
        using components_last [OF split_path_nonempty that(2)]
        by simp
    qed
    then show ?thesis by blast
  qed
qed

lemma hexdigest_no_slash: "CHR ''/'' \<notin> set (hexdigest d @ ''.jpg'')"
  using hexdigest_lower [of d] by auto

lemma image_key_parts:
  "split_path (image_key L u) = [''full'', hexdigest (sha1 L u) @ ''.jpg'']"
proof -
  have "image_key L u = ''full'' @ CHR ''/'' # (hexdigest (sha1 L u) @ ''.jpg'')"
    by (simp add: image_key_def)
  then show ?thesis
    by (simp only: split_path_slash split_path_plain [OF hexdigest_no_slash])
       (simp add: split_path_plain)
qed

lemma thumb_key_parts:
  "split_path (thumb_key L u t)
     = ''thumbs'' # split_path t @ [hexdigest (sha1 L u) @ ''.jpg'']"
proof -
  have "thumb_key L u t
          = ''thumbs'' @ CHR ''/'' # (t @ CHR ''/'' # (hexdigest (sha1 L u) @ ''.jpg''))"
    by (simp add: thumb_key_def)
  then show ?thesis
    by (simp only: split_path_slash split_path_plain [OF hexdigest_no_slash])
       (simp add: split_path_plain)
qed

lemma key_relative:
  "take 1 (image_key L u) \<noteq> ''/''" "last (split_path (image_key L u)) \<noteq> []"
  "take 1 (thumb_key L u t) \<noteq> ''/''" "last (split_path (thumb_key L u t)) \<noteq> []"
  by (simp_all add: image_key_parts thumb_key_parts)
     (simp_all add: image_key_def thumb_key_def)

text \<open>Without \<open>..\<close> a walk stays below the directory it starts from.\<close>

lemma walk_below:
  "walk w cur cs = Some j \<Longrightarrow> ''..'' \<notin> set cs \<Longrightarrow> \<exists>X. j = cur @ X"
proof (induction cs arbitrary: cur)
  case Nil
  then show ?case by simp
next
  case (Cons c cs)
  from Cons.prems(2) have c: "c \<noteq> ''..''" and cs: "''..'' \<notin> set cs" by auto
  show ?case
  proof (cases "c = [] \<or> c = ''.''")
    case True
    with Cons.prems(1) have "walk w cur cs = Some j" by (auto split: if_splits)
    from Cons.IH [OF this cs] show ?thesis .
  next
    case False
    with Cons.prems(1) c have "walk w (cur @ [c]) cs = Some j" by (auto split: if_splits)
    from Cons.IH [OF this cs] show ?thesis by auto
  qed
qed

text \<open>A thumbnail whose identifier has no \<open>..\<close> in it is not written to the place of the
  primary image.\<close>

lemma thumb_elsewhere:
  assumes p: "walk w S (A @ [''full'', hj]) = Some i"
    and e: "extends w w'"
    and hj: "hj \<noteq> []" "hj \<noteq> ''.''" "hj \<noteq> ''..''"
    and t: "''..'' \<notin> set ts"
  shows "walk w' S (A @ ''thumbs'' # ts @ [hj]) \<noteq> Some i"
proof
  assume a: "walk w' S (A @ ''thumbs'' # ts @ [hj]) = Some i"
  from p obtain B where B: "walk w S A = Some B" and f: "walk w B [''full'', hj] = Some i"
    by (auto simp: walk_append split: option.splits)
  from f hj have i: "i = B @ [''full'', hj]"
    by (auto split: if_splits)
  from walk_mono [OF e B] a have "walk w' B (''thumbs'' # ts @ [hj]) = Some i"
    by (simp add: walk_append)
  then have "walk w' (B @ [''thumbs'']) (ts @ [hj]) = Some i"
    by (auto split: if_splits)
  moreover from t hj have "''..'' \<notin> set (ts @ [hj])" by simp
  ultimately obtain X where "i = (B @ [''thumbs'']) @ X"
    using walk_below by blast
  with i show False by simp
qed

lemma resolve_mono:
  "extends w w' \<Longrightarrow> resolve w p = Some i \<Longrightarrow> resolve w' p = Some i"
  by (auto simp: resolve_def extends_def split: if_splits intro: walk_mono)

lemma thumb_path_elsewhere:
  assumes "resolve w (get_filesystem_path d (image_key L u)) = Some i"
    and "extends w w'"
    and "''..'' \<notin> set (split_path t)"
  shows "resolve w' (get_filesystem_path d (thumb_key L u t)) \<noteq> Some i"
proof -
  from resolve_key [of d] obtain A where
    A: "\<And>k w. take 1 k \<noteq> ''/'' \<Longrightarrow> last (split_path k) \<noteq> [] \<Longrightarrow>
          resolve w (get_filesystem_path d k)
            = walk w (if take 1 d = ''/'' then [] else cwd w) (A @ split_path k)"
    by blast
  let ?hj = "hexdigest (sha1 L u) @ ''.jpg''"
  let ?S = "if take 1 d = ''/'' then [] else cwd w"
  have c: "cwd w' = cwd w" using assms(2) by (simp add: extends_def)
  have 1: "walk w ?S (A @ [''full'', ?hj]) = Some i"
    using assms(1) A [OF key_relative(1,2), of w L u] by (simp add: image_key_parts)
  have 2: "resolve w' (get_filesystem_path d (thumb_key L u t))
             = walk w' ?S (A @ ''thumbs'' # split_path t @ [?hj])"
    using A [OF key_relative(3,4), of w' L u t] c by (simp add: thumb_key_parts)
  have hj: "?hj \<noteq> []" "?hj \<noteq> ''.''" "?hj \<noteq> ''..''"
    by (simp_all add: append_eq_Cons_conv)
  from thumb_elsewhere [OF 1 assms(2) hj assms(3)] 2 show ?thesis by simp
qed

subsection \<open>What a processed response leaves in the store\<close>

lemma extends_trace [simp]: "extends (trace_update f w) w' = extends w w'"
  by (simp add: extends_def)

text \<open>What \<open>persist_image\<close> of the file system store does to the tree: directories stay
  directories, and a place the path of the key does not lead to keeps what it holds.\<close>

lemma fs_persist_image_extends:
  assumes "fs_persist_image L d key im buf info w = (r, w')"
  shows "extends w w'"
proof -
  let ?p = "get_filesystem_path d key"
  obtain o1 w1 where m: "mkdir (os_path_dirname ?p) (PyInfo info)
                           (w\<lparr>trace := trace w @ [Persist key]\<rparr>) = (o1, w1)"
    by (cases "mkdir (os_path_dirname ?p) (PyInfo info) (w\<lparr>trace := trace w @ [Persist key]\<rparr>)")
  from mkdir_tree(6) [OF m] have e1: "extends w w1" by simp
  show ?thesis
  proof (cases o1)
    case (Inl e)
    with assms m have "w' = w1" by (simp add: fs_persist_image_def Let_def)
    with e1 show ?thesis by simp
  next
    case (Inr u)
    with assms m have "image_save L im ?p w1 = (r, w')"
      by (simp add: fs_persist_image_def Let_def)
    from extends_trans [OF e1 image_save_tree(6) [OF this]] show ?thesis .
  qed
qed

lemma fs_persist_image_frame:
  assumes "fs_persist_image L d key im buf info w = (r, w')"
    and "\<forall>w''. extends w w'' \<longrightarrow> resolve w'' (get_filesystem_path d key) \<noteq> Some i"
    and "nodes w i = Some n"
  shows "nodes w' i = Some n"
proof -
  let ?p = "get_filesystem_path d key"
  obtain o1 w1 where m: "mkdir (os_path_dirname ?p) (PyInfo info)
                           (w\<lparr>trace := trace w @ [Persist key]\<rparr>) = (o1, w1)"
    by (cases "mkdir (os_path_dirname ?p) (PyInfo info) (w\<lparr>trace := trace w @ [Persist key]\<rparr>)")
  from mkdir_tree(6) [OF m] have e1: "extends w w1" by simp
  from mkdir_tree(7) [OF m, of i n] assms(3) have n1: "nodes w1 i = Some n" by simp
  show ?thesis
  proof (cases o1)
    case (Inl e)
    with assms(1) m have "w' = w1" by (simp add: fs_persist_image_def Let_def)
    with n1 show ?thesis by simp
  next
    case (Inr u)
    with assms(1) m have s: "image_save L im ?p w1 = (r, w')"
      by (simp add: fs_persist_image_def Let_def)
    from assms(2) e1 have "resolve w1 ?p \<noteq> Some i" by blast
    from image_save_tree(8) [OF s this] n1 show ?thesis by simp
  qed
qed

text \<open>The loop keeps the first buffer it was given.\<close>

lemma persist_loop_first_buf:
  "persist_loop L st info items (Some b) w = (Inr fb, w') \<Longrightarrow> fb = Some b"
proof (induction items arbitrary: w)
  case Nil
  then show ?case by simp
next
  case (Cons item items)
  show ?case
  proof (cases item)
    case (Inl e)
    with Cons.prems show ?thesis by simp
  next
    case (Inr x)
    obtain key im buf where x: "x = (key, im, buf)" by (cases x)
    obtain o1 w1 where p: "persist_image L st key im buf info w = (o1, w1)"
      by (cases "persist_image L st key im buf info w")
    from Cons.prems Inr x p obtain u where "o1 = Inr u"
      and "persist_loop L st info items (Some b) w1 = (Inr fb, w')"
      by (cases o1) simp_all
    from Cons.IH [OF this(2)] show ?thesis .
  qed
qed

text \<open>With the file system store the loop leaves alone every place that the path of none
  of its items leads to.\<close>

lemma persist_loop_frame:
  assumes "persist_loop L (FSImagesStore d) info items fb w = (r, w')"
    and "\<forall>key im buf w''. Inr (key, im, buf) \<in> set items \<longrightarrow> extends w w'' \<longrightarrow>
           resolve w'' (get_filesystem_path d key) \<noteq> Some i"
    and "nodes w i = Some n"
  shows "extends w w' \<and> nodes w' i = Some n"
  using assms
proof (induction items arbitrary: fb w)
  case Nil
  then show ?case by (simp add: extends_refl)
next
  case (Cons item items)
  show ?case
  proof (cases item)
    case (Inl e)
    with Cons.prems(1,3) show ?thesis by (simp add: extends_refl)
  next
    case (Inr x)
    obtain key im buf where x: "x = (key, im, buf)" by (cases x)
    obtain o1 w1 where p: "fs_persist_image L d key im buf info w = (o1, w1)"
      by (cases "fs_persist_image L d key im buf info w")
    have here: "\<forall>w''. extends w w'' \<longrightarrow> resolve w'' (get_filesystem_path d key) \<noteq> Some i"
      using Cons.prems(2) Inr x by simp
    note e1 = fs_persist_image_extends [OF p]
    note n1 = fs_persist_image_frame [OF p here Cons.prems(3)]
    show ?thesis
    proof (cases o1)
      case (Inl e)
      with Cons.prems(1) Inr x p have "w' = w1" by (simp add: persist_image_def)
      with e1 n1 show ?thesis by simp
    next
      case o: (Inr u)
      with Cons.prems(1) Inr x p
      have rest: "persist_loop L (FSImagesStore d) info items
              (if fb = None then Some buf else fb) w1 = (r, w')"
        by (simp add: persist_image_def)
      have later: "\<forall>key im buf w''. Inr (key, im, buf) \<in> set items \<longrightarrow> extends w1 w'' \<longrightarrow>
           resolve w'' (get_filesystem_path d key) \<noteq> Some i"
      proof (intro allI impI)
        fix key' im' buf' w''
        assume "Inr (key', im', buf') \<in> set items" and "extends w1 w''"
        with Cons.prems(2) extends_trans [OF e1]
        show "resolve w'' (get_filesystem_path d key') \<noteq> Some i"
          by simp
      qed
      from Cons.IH [OF rest later n1] extends_trans [OF e1] show ?thesis by blast
    qed
  qed
qed

lemma convert_image_saved:
  "convert_image L orig sz = Inr (im, buf) \<Longrightarrow> img_save L im = Some buf"
  by (auto simp: convert_image_def Let_def split: option.splits)

lemma get_images_cases:
  "(\<exists>e. get_images L P resp req = [Inl e]) \<or>
   (\<exists>orig im buf items.
      Image_open L (body resp) = Some orig \<and> convert_image L orig None = Inr (im, buf) \<and>
      get_images L P resp req = Inr (image_key L (url req), im, buf) # items \<and>
      (\<forall>key im' buf'. Inr (key, im', buf') \<in> set items \<longrightarrow>
         (\<exists>t sz. (t, sz) \<in> set (THUMBS P) \<and> key = thumb_key L (url req) t)))"
  by (auto simp: get_images_def Let_def split: option.splits prod.splits sum.splits) blast

subsection \<open>The S3 store\<close>

lemma download_request_trace:
  "trace (snd (download_request sp rq info w))
     = trace w @ [case sp of Some s \<Rightarrow> Scheduled rq s | None \<Rightarrow> Downloaded rq (spider info)]"
  by (simp add: download_request_def split: option.split)

lemma download_request_bucket:
  "s3_bucket (snd (download_request sp rq info w)) = s3_bucket (s3_effect rq w)"
  "network (snd (download_request sp rq info w)) = network w"
  by (simp_all add: download_request_def s3_effect_def split: option.split sum.split)

lemma s3_effect_bucket:
  "s3_bucket (s3_effect rq w) u =
     (if u = url rq \<and> req_method rq = ''PUT'' \<and>
         (\<exists>resp. network w rq = Inr resp \<and> status resp = 200)
      then Some (case req_body rq of None \<Rightarrow> [] | Some b \<Rightarrow> b)
      else s3_bucket w u)"
  by (simp add: s3_effect_def split: sum.split)

text \<open>\<open>persist_image\<close> of the S3 store hands one \<open>PUT\<close> request with the bytes to the
  engine and returns; the object is in the bucket when the request is answered with 200.\<close>

lemma s3_persist_image_request:
  assumes "persist_image L (S3ImagesStore b p sp) key im buf info w = (r, w')"
  shows "\<exists>hdrs.
           (case sp of Some s \<Rightarrow> Scheduled (build_request b p key ''PUT'' (Some buf) hdrs) s
                     | None \<Rightarrow> Downloaded (build_request b p key ''PUT'' (Some buf) hdrs)
                                (spider info))
             \<in> set (trace w') \<and>
           network w' = network w \<and>
           (\<forall>u. s3_bucket w' u =
              (if u = url (build_request b p key ''PUT'' (Some buf) hdrs) \<and>
                  (\<exists>resp. network w (build_request b p key ''PUT'' (Some buf) hdrs) = Inr resp \<and>
                          status resp = 200)
               then Some buf else s3_bucket w u))"
proof -
  obtain width height where sz: "img_size L im = (width, height)"
    by (cases "img_size L im")
  let ?hdrs = "[(''Content-Type'', ''image/jpeg''),
                (''X-Amz-Acl'', ''public-read''),
                (''X-Amz-Meta-Width'', str_int width),
                (''X-Amz-Meta-Height'', str_int height),
                (''Cache-Control'', ''max-age=172800'')]"
  let ?rq = "build_request b p key ''PUT'' (Some buf) ?hdrs"
  from assms sz
  have w': "w' = snd (download_request sp ?rq info (w\<lparr>trace := trace w @ [Persist key]\<rparr>))"
    by (simp add: persist_image_def s3_persist_image_def Let_def)
  have m: "req_method ?rq = ''PUT''" "req_body ?rq = Some buf"
    by (simp_all add: build_request_def)
  have n: "network (w\<lparr>trace := trace w @ [Persist key]\<rparr>) = network w"
    "s3_bucket (w\<lparr>trace := trace w @ [Persist key]\<rparr>) = s3_bucket w"
    by simp_all
  have 1: "(case sp of Some s \<Rightarrow> Scheduled ?rq s | None \<Rightarrow> Downloaded ?rq (spider info))
             \<in> set (trace w')"
    unfolding w' download_request_trace by simp
  have 2: "network w' = network w"
    unfolding w' download_request_bucket by simp
  have 3: "\<forall>u. s3_bucket w' u =
              (if u = url ?rq \<and> (\<exists>resp. network w ?rq = Inr resp \<and> status resp = 200)
               then Some buf else s3_bucket w u)"
    unfolding w' download_request_bucket s3_effect_bucket m n by auto
  from 1 2 3 show ?thesis by (intro exI [of _ ?hdrs] conjI)
qed

lemma persist_image_trace:
  "persist_image L st key im buf info w = (r, w') \<Longrightarrow> \<exists>evs. trace w' = trace w @ evs"
proof (cases st)
  case (FSImagesStore d)
  assume a: "persist_image L st key im buf info w = (r, w')"
  let ?p = "get_filesystem_path d key"
  let ?w0 = "w\<lparr>trace := trace w @ [Persist key]\<rparr>"
  obtain o1 w1 where m: "mkdir (os_path_dirname ?p) (PyInfo info) ?w0 = (o1, w1)"
    by (cases "mkdir (os_path_dirname ?p) (PyInfo info) ?w0")
  from mkdir_tree(8) [OF m] have t1: "\<exists>evs. trace w1 = trace w @ evs" by auto
  show ?thesis
  proof (cases o1)
    case (Inl e)
    with a m FSImagesStore have "w' = w1"
      by (simp add: persist_image_def fs_persist_image_def Let_def)
    with t1 show ?thesis by simp
  next
    case (Inr u)
    with a m FSImagesStore have "image_save L im ?p w1 = (r, w')"
      by (simp add: persist_image_def fs_persist_image_def Let_def)
    from image_save_shape [OF this] have "\<exists>evs. trace w' = trace w1 @ evs" by auto
    with t1 show ?thesis by auto
  qed
next
  case (S3ImagesStore b p sp)
  assume "persist_image L st key im buf info w = (r, w')"
  with S3ImagesStore show ?thesis
    by (auto simp: persist_image_def s3_persist_image_def Let_def download_request_trace
          split: prod.splits)
qed

lemma persist_loop_trace:
  "persist_loop L st info items fb w = (r, w') \<Longrightarrow> \<exists>evs. trace w' = trace w @ evs"
proof (induction items arbitrary: fb w)
  case Nil
  then show ?case by simp
next
  case (Cons item items)
  show ?case
  proof (cases item)
    case (Inl e)
    with Cons.prems show ?thesis by simp
  next
    case (Inr x)
    obtain key im buf where x: "x = (key, im, buf)" by (cases x)
    obtain o1 w1 where p: "persist_image L st key im buf info w = (o1, w1)"
      by (cases "persist_image L st key im buf info w")
    from persist_image_trace [OF p] obtain evs1 where e1: "trace w1 = trace w @ evs1"
      by blast
    show ?thesis
    proof (cases o1)
      case (Inl e)
      with Cons.prems Inr x p have "w' = w1" by simp
      with e1 show ?thesis by simp
    next
      case o: (Inr u)
      with Cons.prems Inr x p
      have "persist_loop L st info items (if fb = None then Some buf else fb) w1 = (r, w')"
        by simp
      from Cons.IH [OF this] obtain evs2 where "trace w' = trace w1 @ evs2" by blast
      with e1 show ?thesis by simp
    qed
  qed
qed

text \<open>With the S3 store the loop leaves alone every object that is not the object of one
  of its items.\<close>

lemma persist_loop_bucket:
  assumes "persist_loop L (S3ImagesStore b p sp) info items fb w = (r, w')"
    and "\<forall>key im buf. Inr (key, im, buf) \<in> set items \<longrightarrow> key \<noteq> k"
  shows "s3_bucket w' (''http://'' @ b @ ''.s3.amazonaws.com/'' @ p @ k)
           = s3_bucket w (''http://'' @ b @ ''.s3.amazonaws.com/'' @ p @ k)"
  using assms
proof (induction items arbitrary: fb w)
  case Nil
  then show ?case by simp
next
  case (Cons item items)
  show ?case
  proof (cases item)
    case (Inl e)
    with Cons.prems(1) show ?thesis by simp
  next
    case (Inr x)
    obtain key im buf where x: "x = (key, im, buf)" by (cases x)
    obtain o1 w1 where q: "persist_image L (S3ImagesStore b p sp) key im buf info w = (o1, w1)"
      by (cases "persist_image L (S3ImagesStore b p sp) key im buf info w")
    have "key \<noteq> k" using Cons.prems(2) Inr x by simp
    with s3_persist_image_request [OF q]
    have b1: "s3_bucket w1 (''http://'' @ b @ ''.s3.amazonaws.com/'' @ p @ k)
                = s3_bucket w (''http://'' @ b @ ''.s3.amazonaws.com/'' @ p @ k)"
      by (auto simp: build_request_def)
    show ?thesis
    proof (cases o1)
      case (Inl e)
      with Cons.prems(1) Inr x q have "w' = w1" by simp
      with b1 show ?thesis by simp
    next
      case o: (Inr u)
      with Cons.prems(1) Inr x q
      have rest: "persist_loop L (S3ImagesStore b p sp) info items
                    (if fb = None then Some buf else fb) w1 = (r, w')"
        by simp
      have later: "\<forall>key im buf. Inr (key, im, buf) \<in> set items \<longrightarrow> key \<noteq> k"
        using Cons.prems(2) by simp
      from Cons.IH [OF rest later] b1 show ?thesis by (rule trans)
    qed
  qed
qed

text \<open>
  C1, as the code has it. When \<open>media_downloaded\<close> returns a result, the response decoded
  to an image whose conversion gave the primary image and its JPEG bytes \<open>buf\<close>; the path
  of the result is the primary key of the URL and its checksum is \<open>md5sum\<close> of \<open>buf\<close>.

  \<^item> With the file system store, and no \<open>..\<close> among the names of a thumbnail identifier,
    the file under that path holds exactly \<open>buf\<close> when the call returns, with the time of
    the call as its modification time: no thumbnail is written over it. \<open>stat_image\<close> on
    the path then reports that time and the checksum of the result, or raises when the
    file may not be read.
  \<^item> With the S3 store, the upload request for that path carries \<open>buf\<close> as its body. The
    result does not wait for the answer: the object under the path is \<open>buf\<close> when the
    request is answered with status 200, and what it was before otherwise.
\<close>

theorem C1_checksum_of_primary_matches_store:
  assumes "fst (media_downloaded L P resp req info w) = Inr res"
  shows "\<exists>orig im buf.
           Image_open L (body resp) = Some orig \<and>
           convert_image L orig None = Inr (im, buf) \<and>
           r_path res = image_key L (url req) \<and>
           r_checksum res = Some (md5sum L buf) \<and>
           (\<forall>d. store P = FSImagesStore d \<and>
                (\<forall>(t, sz) \<in> set (THUMBS P). ''..'' \<notin> set (split_path t)) \<longrightarrow>
              fs_data (snd (media_downloaded L P resp req info w))
                (get_filesystem_path d (r_path res)) = Some buf \<and>
              fs_mtime (snd (media_downloaded L P resp req info w))
                (get_filesystem_path d (r_path res)) = Some (clock w) \<and>
              fs_stat_image L d (r_path res) info (snd (media_downloaded L P resp req info w))
                = (if fs_content (snd (media_downloaded L P resp req info w))
                        (get_filesystem_path d (r_path res)) = None
                   then Inl IOError
                   else Inr \<lparr>last_modified = Some (clock w), checksum = r_checksum res\<rparr>)) \<and>
           (\<forall>b p sp. store P = S3ImagesStore b p sp \<longrightarrow>
              (\<exists>hdrs.
                 (case sp of
                    Some s \<Rightarrow> Scheduled (build_request b p (r_path res) ''PUT'' (Some buf) hdrs) s
                  | None \<Rightarrow> Downloaded (build_request b p (r_path res) ''PUT'' (Some buf) hdrs)
                             (spider info))
                   \<in> set (trace (snd (media_downloaded L P resp req info w))) \<and>
                 s3_bucket (snd (media_downloaded L P resp req info w))
                   (url (build_request b p (r_path res) ''PUT'' (Some buf) hdrs))
                   = (if \<exists>resp'. network w (build_request b p (r_path res) ''PUT'' (Some buf) hdrs)
                                   = Inr resp' \<and> status resp' = 200
                      then Some buf
                      else s3_bucket w
                             (url (build_request b p (r_path res) ''PUT'' (Some buf) hdrs)))))"
proof -
  let ?key = "image_key L (url req)"
  let ?w1 = "inc_stats (domain info)
               (if ''cached'' \<in> set (flags resp) then ''cached'' else ''downloaded'') w"
  have w1: "clock ?w1 = clock w" "network ?w1 = network w" "s3_bucket ?w1 = s3_bucket w"
    by (simp_all add: inc_stats_def inc_value_def)
  from assms have ok: "status resp = 200" "body resp \<noteq> []"
    by (auto simp: media_downloaded_def split: if_splits)
  obtain o2 w2 where i: "image_downloaded L P resp req info ?w1 = (o2, w2)"
    by (cases "image_downloaded L P resp req info ?w1")
  from assms ok i obtain c where o2: "o2 = Inr c"
    and res: "res = \<lparr>r_url = url req, r_path = ?key, r_checksum = Some c\<rparr>"
    and w': "snd (media_downloaded L P resp req info w) = w2"
    by (cases o2) (simp_all add: media_downloaded_def Let_def)
  obtain o3 w3 where l: "persist_loop L (store P) info (get_images L P resp req) None ?w1 = (o3, w3)"
    by (cases "persist_loop L (store P) info (get_images L P resp req) None ?w1")
  from i o2 l obtain fb where o3: "o3 = Inr (Some fb)" and c: "c = md5sum L fb" and w3: "w3 = w2"
    by (cases o3; cases "projr o3") (auto simp: image_downloaded_def)
  have "\<not> (\<exists>e. get_images L P resp req = [Inl e])"
  proof
    assume "\<exists>e. get_images L P resp req = [Inl e]"
    then obtain e where "get_images L P resp req = [Inl e]" ..
    with l o3 show False by simp
  qed
  with get_images_cases [of L P resp req]
  obtain orig im buf items where opn: "Image_open L (body resp) = Some orig"
    and cnv: "convert_image L orig None = Inr (im, buf)"
    and g: "get_images L P resp req = Inr (?key, im, buf) # items"
    and th: "\<forall>key im' buf'. Inr (key, im', buf') \<in> set items \<longrightarrow>
               (\<exists>t sz. (t, sz) \<in> set (THUMBS P) \<and> key = thumb_key L (url req) t)"
    by blast
  obtain o4 w4 where p: "persist_image L (store P) ?key im buf info ?w1 = (o4, w4)"
    by (cases "persist_image L (store P) ?key im buf info ?w1")
  from l o3 w3 g p obtain u where o4: "o4 = Inr u"
    and rest: "persist_loop L (store P) info items (Some buf) w4 = (Inr (Some fb), w2)"
    by (cases o4) simp_all
  from persist_loop_first_buf [OF rest] have fb: "fb = buf" by simp
  have fs: "fs_data w2 (get_filesystem_path d ?key) = Some buf \<and>
            fs_mtime w2 (get_filesystem_path d ?key) = Some (clock w) \<and>
            fs_stat_image L d ?key info w2
              = (if fs_content w2 (get_filesystem_path d ?key) = None then Inl IOError
                 else Inr \<lparr>last_modified = Some (clock w), checksum = Some (md5sum L buf)\<rparr>)"
    if st: "store P = FSImagesStore d"
      and H: "\<forall>(t, sz) \<in> set (THUMBS P). ''..'' \<notin> set (split_path t)" for d
  proof -
    let ?p = "get_filesystem_path d ?key"
    let ?w0 = "?w1\<lparr>trace := trace ?w1 @ [Persist ?key]\<rparr>"
    from p st o4 have fp: "fs_persist_image L d ?key im buf info ?w1 = (Inr u, w4)"
      by (simp add: persist_image_def)
    obtain o1 wa where m: "mkdir (os_path_dirname ?p) (PyInfo info) ?w0 = (o1, wa)"
      by (cases "mkdir (os_path_dirname ?p) (PyInfo info) ?w0")
    from fp m have sv: "image_save L im ?p wa = (Inr u, w4)"
      by (cases o1) (simp_all add: fs_persist_image_def Let_def)
    from mkdir_tree(2) [OF m] w1(1) have ca: "clock wa = clock w" by simp
    from image_save_written [OF sv] convert_image_saved [OF cnv] ca
    obtain i rd where ra: "resolve wa ?p = Some i" and i: "i \<noteq> []"
      and lp: "last ?p \<noteq> CHR ''/''"
      and n4: "nodes w4 i = Some (RegularFile (clock w) buf rd)"
      by auto
    from resolve_mono [OF image_save_tree(6) [OF sv] ra] have r4: "resolve w4 ?p = Some i" .
    have away: "\<forall>key im buf w''. Inr (key, im, buf) \<in> set items \<longrightarrow> extends w4 w'' \<longrightarrow>
                  resolve w'' (get_filesystem_path d key) \<noteq> Some i"
    proof (intro allI impI)
      fix key im' buf' w''
      assume "Inr (key, im', buf') \<in> set items" and e: "extends w4 w''"
      with th obtain t sz where t: "(t, sz) \<in> set (THUMBS P)"
        and k: "key = thumb_key L (url req) t"
        by blast
      from H t have "''..'' \<notin> set (split_path t)" by auto
      from thumb_path_elsewhere [OF r4 e this] k
      show "resolve w'' (get_filesystem_path d key) \<noteq> Some i" by simp
    qed
    from persist_loop_frame [OF rest [unfolded st] away n4]
    have e2: "extends w4 w2" and n2: "nodes w2 i = Some (RegularFile (clock w) buf rd)"
      by simp_all
    from resolve_mono [OF e2 r4] have r2: "resolve w2 ?p = Some i" .
    from r2 n2 i lp have lk: "lookup w2 ?p = Some (RegularFile (clock w) buf rd)"
      by (simp add: lookup_def node_at_def)
    then show ?thesis
      by (simp add: fs_data_def fs_mtime_def fs_content_def fs_stat_image_def Let_def)
  qed
  have s3: "\<exists>hdrs.
              (case sp of
                 Some s \<Rightarrow> Scheduled (build_request b q ?key ''PUT'' (Some buf) hdrs) s
               | None \<Rightarrow> Downloaded (build_request b q ?key ''PUT'' (Some buf) hdrs)
                          (spider info))
                \<in> set (trace w2) \<and>
              s3_bucket w2 (url (build_request b q ?key ''PUT'' (Some buf) hdrs))
                = (if \<exists>resp'. network w (build_request b q ?key ''PUT'' (Some buf) hdrs)
                                = Inr resp' \<and> status resp' = 200
                   then Some buf
                   else s3_bucket w (url (build_request b q ?key ''PUT'' (Some buf) hdrs)))"
    if st: "store P = S3ImagesStore b q sp" for b q sp
  proof -
    from s3_persist_image_request [OF p [unfolded st]] obtain hdrs where
      h: "(case sp of
             Some s \<Rightarrow> Scheduled (build_request b q ?key ''PUT'' (Some buf) hdrs) s
           | None \<Rightarrow> Downloaded (build_request b q ?key ''PUT'' (Some buf) hdrs)
                      (spider info))
            \<in> set (trace w4)"
      and b4: "\<forall>u. s3_bucket w4 u =
              (if u = url (build_request b q ?key ''PUT'' (Some buf) hdrs) \<and>
                  (\<exists>resp'. network ?w1 (build_request b q ?key ''PUT'' (Some buf) hdrs)
                             = Inr resp' \<and> status resp' = 200)
               then Some buf else s3_bucket ?w1 u)"
      by blast
    let ?rq = "build_request b q ?key ''PUT'' (Some buf) hdrs"
    from persist_loop_trace [OF rest] obtain evs where "trace w2 = trace w4 @ evs" by blast
    with h have 1: "(case sp of Some s \<Rightarrow> Scheduled ?rq s | None \<Rightarrow> Downloaded ?rq (spider info))
                      \<in> set (trace w2)"
      by auto
    have other: "\<forall>key im' buf'. Inr (key, im', buf') \<in> set items \<longrightarrow> key \<noteq> ?key"
    proof (intro allI impI)
      fix key im' buf'
      assume "Inr (key, im', buf') \<in> set items"
      with th obtain t where "key = thumb_key L (url req) t" by blast
      then show "key \<noteq> ?key" by (simp add: thumb_key_def image_key_def)
    qed
    have u: "url ?rq = ''http://'' @ b @ ''.s3.amazonaws.com/'' @ q @ ?key"
      by (simp add: build_request_def)
    from persist_loop_bucket [OF rest [unfolded st] other]
    have "s3_bucket w2 (url ?rq) = s3_bucket w4 (url ?rq)"
      unfolding u .
    also from b4 have "\<dots> = (if \<exists>resp'. network ?w1 ?rq = Inr resp' \<and> status resp' = 200
                            then Some buf else s3_bucket ?w1 (url ?rq))"
      by simp
    finally have 2: "s3_bucket w2 (url ?rq)
                       = (if \<exists>resp'. network w ?rq = Inr resp' \<and> status resp' = 200
                          then Some buf else s3_bucket w (url ?rq))"
      unfolding w1 .
    from 1 2 show ?thesis by blast
  qed
  have a: "r_path res = ?key" "r_checksum res = Some (md5sum L buf)"
    using res c fb by simp_all
  have fsall: "\<forall>d. store P = FSImagesStore d \<and>
                (\<forall>(t, sz) \<in> set (THUMBS P). ''..'' \<notin> set (split_path t)) \<longrightarrow>
              fs_data (snd (media_downloaded L P resp req info w))
                (get_filesystem_path d (r_path res)) = Some buf \<and>
              fs_mtime (snd (media_downloaded L P resp req info w))
                (get_filesystem_path d (r_path res)) = Some (clock w) \<and>
              fs_stat_image L d (r_path res) info (snd (media_downloaded L P resp req info w))
                = (if fs_content (snd (media_downloaded L P resp req info w))
                        (get_filesystem_path d (r_path res)) = None
                   then Inl IOError
                   else Inr \<lparr>last_modified = Some (clock w), checksum = r_checksum res\<rparr>)"
    unfolding w' a using fs by blast
  have s3all: "\<forall>b p sp. store P = S3ImagesStore b p sp \<longrightarrow>
              (\<exists>hdrs.
                 (case sp of
                    Some s \<Rightarrow> Scheduled (build_request b p (r_path res) ''PUT'' (Some buf) hdrs) s
                  | None \<Rightarrow> Downloaded (build_request b p (r_path res) ''PUT'' (Some buf) hdrs)
                             (spider info))
                   \<in> set (trace (snd (media_downloaded L P resp req info w))) \<and>
                 s3_bucket (snd (media_downloaded L P resp req info w))
                   (url (build_request b p (r_path res) ''PUT'' (Some buf) hdrs))
                   = (if \<exists>resp'. network w (build_request b p (r_path res) ''PUT'' (Some buf) hdrs)
                                   = Inr resp' \<and> status resp' = 200
                      then Some buf
                      else s3_bucket w
                             (url (build_request b p (r_path res) ''PUT'' (Some buf) hdrs))))"
    unfolding w' a using s3 by blast
  from opn cnv a fsall s3all show ?thesis
    by (intro exI [of _ buf] exI [where x = im] exI [where x = orig] conjI)
qed

theorem C1_checksum_of_primary_matches_store_witness:
  "fst (media_downloaded demo_libs demo_pipeline (demo_response 200 ''dd'') demo_request
          demo_info demo_world)
     = Inr \<lparr>r_url = ''http://example.com/a.jpg'', r_path = ''full/6874.jpg'',
             r_checksum = Some ''4a50''\<rparr> \<and>
   map (\<lambda>(t, sz). split_path t) (THUMBS demo_pipeline) = [[''small'']] \<and>
   fs_data (snd (media_downloaded demo_libs demo_pipeline (demo_response 200 ''dd'')
                   demo_request demo_info demo_world)) ''/data/full/6874.jpg''
     = Some ''JPEGL'' \<and>
   fs_stat_image demo_libs ''/data'' ''full/6874.jpg'' demo_info
       (snd (media_downloaded demo_libs demo_pipeline (demo_response 200 ''dd'')
               demo_request demo_info demo_world))
     = Inr \<lparr>last_modified = Some 1000, checksum = Some ''4a50''\<rparr> \<and>
   md5sum demo_libs ''JPEGL'' = ''4a50'' \<and>
   fst (media_downloaded demo_libs
          (demo_pipeline\<lparr>store := S3ImagesStore ''bucket'' ''pre/'' None\<rparr>)
          (demo_response 200 ''dd'') demo_request demo_info
          (demo_world\<lparr>network := (\<lambda>r. Inr (demo_response 200 []))\<rparr>))
     = Inr \<lparr>r_url = ''http://example.com/a.jpg'', r_path = ''full/6874.jpg'',
             r_checksum = Some ''4a50''\<rparr> \<and>
   s3_bucket (snd (media_downloaded demo_libs
                     (demo_pipeline\<lparr>store := S3ImagesStore ''bucket'' ''pre/'' None\<rparr>)
                     (demo_response 200 ''dd'') demo_request demo_info
                     (demo_world\<lparr>network := (\<lambda>r. Inr (demo_response 200 []))\<rparr>)))
       ''http://bucket.s3.amazonaws.com/pre/full/6874.jpg''
     = Some ''JPEGL''"
proof -
  let ?res = "\<lparr>r_url = ''http://example.com/a.jpg'', r_path = ''full/6874.jpg'',
               r_checksum = Some ''4a50''\<rparr>"
  let ?w' = "snd (media_downloaded demo_libs demo_pipeline (demo_response 200 ''dd'')
                    demo_request demo_info demo_world)"
  let ?P3 = "demo_pipeline\<lparr>store := S3ImagesStore ''bucket'' ''pre/'' None\<rparr>"
  let ?W3 = "demo_world\<lparr>network := (\<lambda>r. Inr (demo_response 200 []))\<rparr>"
  let ?w3 = "snd (media_downloaded demo_libs ?P3 (demo_response 200 ''dd'') demo_request
                    demo_info ?W3)"
  have h: "fst (media_downloaded demo_libs demo_pipeline (demo_response 200 ''dd'')
                  demo_request demo_info demo_world) = Inr ?res"
    by code_simp
  have h3: "fst (media_downloaded demo_libs ?P3 (demo_response 200 ''dd'') demo_request
                   demo_info ?W3) = Inr ?res"
    by code_simp
  have st: "store demo_pipeline = FSImagesStore ''/data''"
    by (simp add: demo_pipeline_def)
  have st3: "store ?P3 = S3ImagesStore ''bucket'' ''pre/'' None"
    by simp
  have H: "\<forall>(t, sz) \<in> set (THUMBS demo_pipeline). ''..'' \<notin> set (split_path t)"
    by code_simp
  have o: "Image_open demo_libs (body (demo_response 200 ''dd'')) = Some (100, 100, ''RGB'')"
    by code_simp
  have cv: "convert_image demo_libs (100, 100, ''RGB'') None = Inr ((100, 100, ''RGB''), ''JPEGL'')"
    by code_simp
  have m: "md5sum demo_libs ''JPEGL'' = ''4a50''"
    by code_simp
  have ck: "clock demo_world = 1000"
    by (simp add: demo_world_def)
  have nw: "network ?W3 = (\<lambda>r. Inr (demo_response 200 []))"
    by simp
  have s200: "status (demo_response 200 []) = 200"
    by (simp add: demo_response_def)
  have fd: "fs_data ?w' ''/data/full/6874.jpg'' = Some ''JPEGL'' \<and>
            fs_stat_image demo_libs ''/data'' ''full/6874.jpg'' demo_info ?w'
              = Inr \<lparr>last_modified = Some 1000, checksum = Some ''4a50''\<rparr>"
  proof -
    from C1_checksum_of_primary_matches_store [OF h]
    obtain orig im buf where
      1: "Image_open demo_libs (body (demo_response 200 ''dd'')) = Some orig"
      and 2: "convert_image demo_libs orig None = Inr (im, buf)"
      and 3: "\<forall>d. store demo_pipeline = FSImagesStore d \<and>
                (\<forall>(t, sz) \<in> set (THUMBS demo_pipeline). ''..'' \<notin> set (split_path t)) \<longrightarrow>
              fs_data ?w' (get_filesystem_path d (r_path ?res)) = Some buf \<and>
              fs_mtime ?w' (get_filesystem_path d (r_path ?res)) = Some (clock demo_world) \<and>
              fs_stat_image demo_libs d (r_path ?res) demo_info ?w'
                = (if fs_content ?w' (get_filesystem_path d (r_path ?res)) = None
                   then Inl IOError
                   else Inr \<lparr>last_modified = Some (clock demo_world),
                             checksum = r_checksum ?res\<rparr>)"
      by blast
    from 1 o have "orig = (100, 100, ''RGB'')" by simp
    with 2 cv have b: "buf = ''JPEGL''" by simp
    have rd: "fs_content ?w' (get_filesystem_path ''/data'' ''full/6874.jpg'') \<noteq> None"
      by code_simp
    from 3 st H
    have "fs_data ?w' (get_filesystem_path ''/data'' (r_path ?res)) = Some buf \<and>
          fs_stat_image demo_libs ''/data'' (r_path ?res) demo_info ?w'
                = (if fs_content ?w' (get_filesystem_path ''/data'' (r_path ?res)) = None
                   then Inl IOError
                   else Inr \<lparr>last_modified = Some (clock demo_world),
                             checksum = r_checksum ?res\<rparr>)"
      by blast
    with b rd ck show ?thesis by (simp add: demo_path)
  qed
  have bk: "s3_bucket ?w3 ''http://bucket.s3.amazonaws.com/pre/full/6874.jpg'' = Some ''JPEGL''"
  proof -
    from C1_checksum_of_primary_matches_store [OF h3]
    obtain orig im buf where
      1: "Image_open demo_libs (body (demo_response 200 ''dd'')) = Some orig"
      and 2: "convert_image demo_libs orig None = Inr (im, buf)"
      and 3: "\<forall>b p sp. store ?P3 = S3ImagesStore b p sp \<longrightarrow>
              (\<exists>hdrs.
                 (case sp of
                    Some s \<Rightarrow> Scheduled (build_request b p (r_path ?res) ''PUT'' (Some buf) hdrs) s
                  | None \<Rightarrow> Downloaded (build_request b p (r_path ?res) ''PUT'' (Some buf) hdrs)
                             (spider demo_info))
                   \<in> set (trace ?w3) \<and>
                 s3_bucket ?w3 (url (build_request b p (r_path ?res) ''PUT'' (Some buf) hdrs))
                   = (if \<exists>resp'. network ?W3
                                   (build_request b p (r_path ?res) ''PUT'' (Some buf) hdrs)
                                   = Inr resp' \<and> status resp' = 200
                      then Some buf
                      else s3_bucket ?W3
                             (url (build_request b p (r_path ?res) ''PUT'' (Some buf) hdrs))))"
      by blast
    from 1 o have "orig = (100, 100, ''RGB'')" by simp
    with 2 cv have b: "buf = ''JPEGL''" by simp
    from 3 st3 obtain hdrs where
      "s3_bucket ?w3 (url (build_request ''bucket'' ''pre/'' (r_path ?res) ''PUT'' (Some buf) hdrs))
         = (if \<exists>resp'. network ?W3
                         (build_request ''bucket'' ''pre/'' (r_path ?res) ''PUT'' (Some buf) hdrs)
                         = Inr resp' \<and> status resp' = 200
            then Some buf
            else s3_bucket ?W3
                   (url (build_request ''bucket'' ''pre/'' (r_path ?res) ''PUT'' (Some buf) hdrs)))"
      by blast
    with b s200 show ?thesis
      unfolding nw by (simp add: build_request_def)
  qed
  have sp: "map (\<lambda>(t, sz). split_path t) (THUMBS demo_pipeline) = [[''small'']]"
    by code_simp
  from h sp fd m h3 bk show ?thesis by (intro conjI) blast+
qed

text \<open>
  C1 as the specification words it fails for both stores. With the file system store and
  the thumbnails \<open>small\<close> and \<open>../full\<close>, the second thumbnail is written to
  \<open>/data/thumbs/../full/6874.jpg\<close>, which is the file of the primary image: the result
  carries the checksum \<open>4a50\<close> of the primary bytes, and the file under its path holds
  the bytes of the thumbnail, whose checksum is \<open>736d\<close>. With the S3 store and an engine
  that fails every request, the result with its checksum is returned all the same, and
  nothing is stored under its path.
\<close>

theorem C1_counterexample:
  "fst (media_downloaded demo_libs
          (demo_pipeline\<lparr>THUMBS := [(''small'', (50, 50)), (''../full'', (50, 50))]\<rparr>)
          (demo_response 200 ''dd'') demo_request demo_info demo_world)
     = Inr \<lparr>r_url = ''http://example.com/a.jpg'', r_path = ''full/6874.jpg'',
             r_checksum = Some ''4a50''\<rparr> \<and>
   fs_content (snd (media_downloaded demo_libs
                    (demo_pipeline\<lparr>THUMBS := [(''small'', (50, 50)), (''../full'', (50, 50))]\<rparr>)
                    (demo_response 200 ''dd'') demo_request demo_info demo_world))
       (get_filesystem_path ''/data'' ''full/6874.jpg'')
     = Some ''small'' \<and>
   md5sum demo_libs ''small'' = ''736d'' \<and>
   fs_stat_image demo_libs ''/data'' ''full/6874.jpg'' demo_info
       (snd (media_downloaded demo_libs
               (demo_pipeline\<lparr>THUMBS := [(''small'', (50, 50)), (''../full'', (50, 50))]\<rparr>)
               (demo_response 200 ''dd'') demo_request demo_info demo_world))
     = Inr \<lparr>last_modified = Some 1000, checksum = Some ''736d''\<rparr> \<and>
   fst (media_downloaded demo_libs
          (demo_pipeline\<lparr>store := S3ImagesStore ''bucket'' ''pre/'' None\<rparr>)
          (demo_response 200 ''dd'') demo_request demo_info demo_world)
     = Inr \<lparr>r_url = ''http://example.com/a.jpg'', r_path = ''full/6874.jpg'',
             r_checksum = Some ''4a50''\<rparr> \<and>
   s3_bucket (snd (media_downloaded demo_libs
                     (demo_pipeline\<lparr>store := S3ImagesStore ''bucket'' ''pre/'' None\<rparr>)
                     (demo_response 200 ''dd'') demo_request demo_info demo_world))
       ''http://bucket.s3.amazonaws.com/pre/full/6874.jpg''
     = None"
  by code_simp

end
